theory Spec2Isabelle
  imports Complex_Main
begin

section \<open>The budget store of \<open>src/context/BudgetContext.tsx\<close>\<close>

text \<open>
  The store is a reducer over one snapshot \<open>{transactions, budgets, categories}\<close>, a
  handful of callbacks that dispatch actions to it, and pure queries over the snapshot.

  Conventions of the embedding:
  \<^item> a TypeScript \<open>interface\<close> is a record with the same field names; \<open>Omit<T, 'id'>\<close> is the
    parent record that \<open>T\<close> extends by \<open>id\<close>;
  \<^item> a JavaScript \<open>number\<close> is an IEEE 754 binary64 value: a finite value (a real number),
    one of the two zeros, one of the two infinities or \<open>NaN\<close>. The arithmetic of the queries
    rounds to nearest, ties to even, and overflows to an infinity, as the language does;
  \<^item> a JavaScript string is a \<open>string\<close>; the icon glyphs are given by their UTF-8 bytes;
  \<^item> \<open>Date.now()\<close> is an input of the callbacks that read it (a number of milliseconds);
  \<^item> a plain object used as a dictionary is the list of its own properties in creation
    order, read through the properties it inherits from \<open>Object.prototype\<close>.
\<close>

subsection \<open>Numbers\<close>

text \<open>
  \<open>Num 0\<close> is the positive zero. A value \<open>Num r\<close> that the program holds is a binary64 value;
  \<open>is_double\<close> says so.
\<close>

datatype number = Num real | NegZero | Infinity | NegInfinity | NaN

definition negative :: "number \<Rightarrow> bool" where
  "negative x = (case x of Num r \<Rightarrow> r < 0 | NegZero \<Rightarrow> True | Infinity \<Rightarrow> False
                 | NegInfinity \<Rightarrow> True | NaN \<Rightarrow> False)"

definition val :: "number \<Rightarrow> real" where
  "val x = (case x of Num r \<Rightarrow> r | _ \<Rightarrow> 0)"

definition is_zero :: "number \<Rightarrow> bool" where
  "is_zero x = (x = Num 0 \<or> x = NegZero)"

definition is_inf :: "number \<Rightarrow> bool" where
  "is_inf x = (x = Infinity \<or> x = NegInfinity)"

definition signed_zero :: "bool \<Rightarrow> number" where
  "signed_zero s = (if s then NegZero else Num 0)"

definition signed_inf :: "bool \<Rightarrow> number" where
  "signed_inf s = (if s then NegInfinity else Infinity)"

text \<open>The number of binary digits of a positive integer.\<close>

function bits :: "int \<Rightarrow> int" where
  "bits n = (if n \<le> 0 then 0 else bits (n div 2) + 1)"
  by pat_completeness auto
termination
  by (relation "measure nat") auto

declare bits.simps [simp del]

text \<open>For \<open>a > 0\<close>, the exponent \<open>e\<close> with \<open>2 ^ e \<le> a < 2 ^ (e + 1)\<close>.\<close>

definition ilog2 :: "real \<Rightarrow> int" where
  "ilog2 a = (if 1 \<le> a then bits \<lfloor>a\<rfloor> - 1 else - bits (\<lceil>1 / a\<rceil> - 1))"

definition nearest_even :: "real \<Rightarrow> int" where
  "nearest_even x =
     (let f = \<lfloor>x\<rfloor>; r = x - of_int f
      in if r < 1 / 2 then f else if 1 / 2 < r then f + 1 else if even f then f else f + 1)"

text \<open>
  Rounding of an exact result with sign \<open>s\<close> and magnitude \<open>a \<ge> 0\<close>: the significand has 53
  bits, the least exponent of a unit in the last place is \<open>-1074\<close> (subnormal numbers), and a
  rounded magnitude of \<open>2 ^ 1024\<close> or more is an infinity.
\<close>

definition round_to :: "bool \<Rightarrow> real \<Rightarrow> number" where
  "round_to s a =
     (let q = max (ilog2 a - 52) (- 1074);
          m = nearest_even (a / 2 powi q);
          v = of_int m * 2 powi q
      in if a = 0 \<or> m = 0 then signed_zero s
         else if 2 ^ 1024 \<le> v then signed_inf s
         else Num (if s then - v else v))"

text \<open>The binary64 value of a decimal literal or of a parsed decimal text.\<close>

definition double :: "real \<Rightarrow> number" where
  "double r = round_to (r < 0) \<bar>r\<bar>"

definition is_double :: "number \<Rightarrow> bool" where
  "is_double x = (case x of Num r \<Rightarrow> double r = Num r | _ \<Rightarrow> True)"

text \<open>The operators \<open>+\<close>, unary \<open>-\<close>, binary \<open>-\<close>, \<open>*\<close> and \<open>/\<close> on numbers.\<close>

definition fadd :: "number \<Rightarrow> number \<Rightarrow> number" where
  "fadd x y =
     (if x = NaN \<or> y = NaN then NaN
      else if is_inf x then (if is_inf y \<and> x \<noteq> y then NaN else x)
      else if is_inf y then y
      else let s = val x + val y
           in if s = 0 then signed_zero (negative x \<and> negative y)
              else round_to (s < 0) \<bar>s\<bar>)"

definition fneg :: "number \<Rightarrow> number" where
  "fneg x = (case x of Num r \<Rightarrow> if r = 0 then NegZero else Num (- r) | NegZero \<Rightarrow> Num 0
              | Infinity \<Rightarrow> NegInfinity | NegInfinity \<Rightarrow> Infinity | NaN \<Rightarrow> NaN)"

definition fsub :: "number \<Rightarrow> number \<Rightarrow> number" where
  "fsub x y = fadd x (fneg y)"

definition fmul :: "number \<Rightarrow> number \<Rightarrow> number" where
  "fmul x y =
     (if x = NaN \<or> y = NaN then NaN
      else if (is_inf x \<and> is_zero y) \<or> (is_zero x \<and> is_inf y) then NaN
      else if is_inf x \<or> is_inf y then signed_inf (negative x \<noteq> negative y)
      else round_to (negative x \<noteq> negative y) (\<bar>val x\<bar> * \<bar>val y\<bar>))"

definition fdiv :: "number \<Rightarrow> number \<Rightarrow> number" where
  "fdiv x y =
     (if x = NaN \<or> y = NaN then NaN
      else if (is_inf x \<and> is_inf y) \<or> (is_zero x \<and> is_zero y) then NaN
      else if is_inf x \<or> is_zero y then signed_inf (negative x \<noteq> negative y)
      else if is_inf y then signed_zero (negative x \<noteq> negative y)
      else round_to (negative x \<noteq> negative y) (\<bar>val x\<bar> / \<bar>val y\<bar>))"

text \<open>
  The comparison \<open>x < y\<close> (false when an operand is \<open>NaN\<close>; the two zeros are equal), and
  \<open>Math.min\<close>, for which the negative zero is the smaller zero.
\<close>

definition js_less :: "number \<Rightarrow> number \<Rightarrow> bool" where
  "js_less x y =
     (if x = NaN \<or> y = NaN then False
      else if x = NegInfinity then y \<noteq> NegInfinity
      else if y = Infinity then x \<noteq> Infinity
      else if x = Infinity \<or> y = NegInfinity then False
      else val x < val y)"

definition Math_min :: "number \<Rightarrow> number \<Rightarrow> number" where
  "Math_min x y =
     (if x = NaN \<or> y = NaN then NaN
      else if js_less x y then x
      else if js_less y x then y
      else if x = NegZero then x else y)"

text \<open>A number is falsy when it is a zero or \<open>NaN\<close>.\<close>

definition falsy :: "number \<Rightarrow> bool" where
  "falsy x = (is_zero x \<or> x = NaN)"

subsection \<open>Data model\<close>

record Budget =
  category :: string
  limit :: number
  spent :: number

record Omit_Category_id =
  name :: string
  icon :: string
  color :: string

record Category = Omit_Category_id +
  id :: string

datatype TransactionType = income | expense

record Omit_Transaction_id =
  amount :: number
  type :: TransactionType
  category :: string
  date :: string
  description :: string

record Transaction = Omit_Transaction_id +
  id :: string

record BudgetState =
  transactions :: "Transaction list"
  budgets :: "Budget list"
  categories :: "Category list"

datatype BudgetAction =
    ADD_TRANSACTION Transaction
  | UPDATE_TRANSACTION Transaction
  | DELETE_TRANSACTION string
  | SET_BUDGET Budget
  | ADD_CATEGORY Category
  | LOAD_DATA BudgetState

definition defaultCategories :: "Category list" where
  "defaultCategories =
    [\<lparr>name = ''Food & Dining'',
      icon = [CHR 0xF0, CHR 0x9F, CHR 0x8D, CHR 0xBD, CHR 0xEF, CHR 0xB8, CHR 0x8F],
      color = ''#F59E0B'', Category.id = ''1''\<rparr>,
     \<lparr>name = ''Transportation'',
      icon = [CHR 0xF0, CHR 0x9F, CHR 0x9A, CHR 0x97],
      color = ''#3B82F6'', Category.id = ''2''\<rparr>,
     \<lparr>name = ''Shopping'',
      icon = [CHR 0xF0, CHR 0x9F, CHR 0x9B, CHR 0x8D, CHR 0xEF, CHR 0xB8, CHR 0x8F],
      color = ''#EF4444'', Category.id = ''3''\<rparr>,
     \<lparr>name = ''Entertainment'',
      icon = [CHR 0xF0, CHR 0x9F, CHR 0x8E, CHR 0xAC],
      color = ''#8B5CF6'', Category.id = ''4''\<rparr>,
     \<lparr>name = ''Bills & Utilities'',
      icon = [CHR 0xE2, CHR 0x9A, CHR 0xA1],
      color = ''#10B981'', Category.id = ''5''\<rparr>,
     \<lparr>name = ''Healthcare'',
      icon = [CHR 0xF0, CHR 0x9F, CHR 0x8F, CHR 0xA5],
      color = ''#F97316'', Category.id = ''6''\<rparr>,
     \<lparr>name = ''Salary'',
      icon = [CHR 0xF0, CHR 0x9F, CHR 0x92, CHR 0xB0],
      color = ''#059669'', Category.id = ''7''\<rparr>,
     \<lparr>name = ''Freelance'',
      icon = [CHR 0xF0, CHR 0x9F, CHR 0x92, CHR 0xBC],
      color = ''#0891B2'', Category.id = ''8''\<rparr>,
     \<lparr>name = ''Other'',
      icon = [CHR 0xF0, CHR 0x9F, CHR 0x93, CHR 0xA6],
      color = ''#6B7280'', Category.id = ''9''\<rparr>]"

definition initialState :: BudgetState where
  "initialState = \<lparr>transactions = [], budgets = [], categories = defaultCategories\<rparr>"

subsection \<open>The reducer\<close>

text \<open>
  One equation per \<open>case\<close> of the \<open>switch\<close>. \<open>{...state, f: v}\<close> is the record update
  \<open>state\<lparr>f := v\<rparr>\<close>; \<open>xs.map\<close>, \<open>xs.filter\<close> and \<open>xs.some\<close> are \<open>map\<close>, \<open>filter\<close> and
  \<open>list_ex\<close>. The \<open>default\<close> branch is unreachable for a value of the action type.
\<close>

fun budgetReducer :: "BudgetState \<Rightarrow> BudgetAction \<Rightarrow> BudgetState" where
  "budgetReducer state (ADD_TRANSACTION payload) =
     state\<lparr>transactions := transactions state @ [payload]\<rparr>"
| "budgetReducer state (UPDATE_TRANSACTION payload) =
     state\<lparr>transactions :=
       map (\<lambda>t. if Transaction.id t = Transaction.id payload then payload else t)
         (transactions state)\<rparr>"
| "budgetReducer state (DELETE_TRANSACTION payload) =
     state\<lparr>transactions := filter (\<lambda>t. Transaction.id t \<noteq> payload) (transactions state)\<rparr>"
| "budgetReducer state (SET_BUDGET payload) =
     state\<lparr>budgets :=
       (if list_ex (\<lambda>b. Budget.category b = Budget.category payload) (budgets state)
        then map (\<lambda>b. if Budget.category b = Budget.category payload then payload else b)
               (budgets state)
        else budgets state @ [payload])\<rparr>"
| "budgetReducer state (ADD_CATEGORY payload) =
     state\<lparr>categories := categories state @ [payload]\<rparr>"
| "budgetReducer state (LOAD_DATA payload) = payload"

subsection \<open>The callbacks of the provider\<close>

text \<open>
  \<open>Date.now().toString()\<close>: the decimal digits of a non-negative integer, most significant
  first, no leading zero.
\<close>

definition digit :: "nat \<Rightarrow> char" where
  "digit d = ''0123456789'' ! d"

function toString :: "nat \<Rightarrow> string" where
  "toString n = (if n < 10 then [digit n] else toString (n div 10) @ [digit (n mod 10)])"
  by pat_completeness auto
termination
  by (relation "measure (\<lambda>n. n)") auto

declare toString.simps [simp del]

text \<open>
  Each callback dispatches one action; the model returns the state the reducer produces.
  \<open>addTransaction\<close> and \<open>addCategory\<close> take the reading of the clock as \<open>now\<close>.
\<close>

definition addTransaction :: "nat \<Rightarrow> BudgetState \<Rightarrow> Omit_Transaction_id \<Rightarrow> BudgetState" where
  "addTransaction now state transaction =
     (let newTransaction =
        \<lparr>amount = amount transaction, type = type transaction,
         category = category transaction, date = date transaction,
         description = description transaction, Transaction.id = toString now\<rparr>
      in budgetReducer state (ADD_TRANSACTION newTransaction))"

definition updateTransaction :: "BudgetState \<Rightarrow> Transaction \<Rightarrow> BudgetState" where
  "updateTransaction state transaction = budgetReducer state (UPDATE_TRANSACTION transaction)"

definition deleteTransaction :: "BudgetState \<Rightarrow> string \<Rightarrow> BudgetState" where
  "deleteTransaction state i = budgetReducer state (DELETE_TRANSACTION i)"

definition setBudget :: "BudgetState \<Rightarrow> Budget \<Rightarrow> BudgetState" where
  "setBudget state budget = budgetReducer state (SET_BUDGET budget)"

definition addCategory :: "nat \<Rightarrow> BudgetState \<Rightarrow> Omit_Category_id \<Rightarrow> BudgetState" where
  "addCategory now state c =
     (let newCategory =
        \<lparr>name = name c, icon = icon c, color = color c, Category.id = toString now\<rparr>
      in budgetReducer state (ADD_CATEGORY newCategory))"

text \<open>A sequence of calls made by the pages, each with the clock reading it observes.\<close>

datatype call =
    AddTransaction nat Omit_Transaction_id
  | UpdateTransaction Transaction
  | DeleteTransaction string
  | SetBudget Budget
  | AddCategory nat Omit_Category_id

fun perform :: "BudgetState \<Rightarrow> call \<Rightarrow> BudgetState" where
  "perform state (AddTransaction now transaction) = addTransaction now state transaction"
| "perform state (UpdateTransaction transaction) = updateTransaction state transaction"
| "perform state (DeleteTransaction i) = deleteTransaction state i"
| "perform state (SetBudget budget) = setBudget state budget"
| "perform state (AddCategory now c) = addCategory now state c"

definition run :: "BudgetState \<Rightarrow> call list \<Rightarrow> BudgetState" where
  "run state calls = foldl perform state calls"

subsection \<open>Queries\<close>

text \<open>\<open>xs.reduce((sum, t) => sum + t.amount, 0)\<close> is a left fold of \<open>+\<close> from \<open>0\<close>.\<close>

definition calculateTotalIncome :: "BudgetState \<Rightarrow> number" where
  "calculateTotalIncome state =
     foldl (\<lambda>sum t. fadd sum (amount t)) (Num 0)
       (filter (\<lambda>t. type t = income) (transactions state))"

definition calculateTotalExpenses :: "BudgetState \<Rightarrow> number" where
  "calculateTotalExpenses state =
     foldl (\<lambda>sum t. fadd sum (amount t)) (Num 0)
       (filter (\<lambda>t. type t = expense) (transactions state))"

definition calculateBalance :: "BudgetState \<Rightarrow> number" where
  "calculateBalance state = fsub (calculateTotalIncome state) (calculateTotalExpenses state)"

text \<open>
  The accumulator of \<open>getExpensesByCategory\<close> is a plain object \<open>{}\<close>, whose prototype is
  \<open>Object.prototype\<close>. What is read from it is a number or something that is not a number:
  \<open>Inherited k\<close> stands for the inherited property named \<open>k\<close> (a function, or the prototype
  object for \<open>__proto__\<close>), which \<open>+\<close> turns into its text, and \<open>Appended s n\<close> is the string
  \<open>s\<close> followed by the decimal text of \<open>n\<close>. A function, an object and a string that is
  not empty are truthy. The dictionary is the list of the own properties in creation
  order; the order in which JavaScript enumerates them plays no role below.
\<close>

datatype js_string = Inherited string | Appended js_string number

datatype js_value = Number number | Str js_string

type_synonym dict = "(string \<times> js_value) list"

text \<open>
  The properties every plain object inherits: the methods of \<open>Object.prototype\<close>, and the
  accessor \<open>__proto__\<close>, whose getter returns the prototype object and whose setter ignores
  a value that is neither an object nor \<open>null\<close>.
\<close>

definition Object_prototype_methods :: "string list" where
  "Object_prototype_methods =
     [''constructor'', ''hasOwnProperty'', ''isPrototypeOf'', ''propertyIsEnumerable'',
      ''toLocaleString'', ''toString'', ''valueOf'', ''__defineGetter__'', ''__defineSetter__'',
      ''__lookupGetter__'', ''__lookupSetter__'']"

definition inherited :: "string \<Rightarrow> bool" where
  "inherited k = (k = ''__proto__'' \<or> k \<in> set Object_prototype_methods)"

text \<open>
  \<open>acc[k]\<close> reads the own property, else the inherited one, else \<open>undefined\<close> (\<open>None\<close>).
  \<open>acc[k] = v\<close> with a number or a string \<open>v\<close> overwrites the own property in place or adds
  it after the others; for \<open>__proto__\<close> it changes nothing. \<open>x || 0\<close> replaces a falsy \<open>x\<close>
  by \<open>0\<close>, and \<open>x + n\<close> adds numbers or appends to a string.
\<close>

definition get_prop :: "dict \<Rightarrow> string \<Rightarrow> js_value option" where
  "get_prop acc k =
     (case map_of acc k of
        Some v \<Rightarrow> Some v
      | None \<Rightarrow> if inherited k then Some (Str (Inherited k)) else None)"

fun own_set :: "dict \<Rightarrow> string \<Rightarrow> js_value \<Rightarrow> dict" where
  "own_set [] k v = [(k, v)]"
| "own_set ((k', v') # kvs) k v =
     (if k' = k then (k', v) # kvs else (k', v') # own_set kvs k v)"

definition set_prop :: "dict \<Rightarrow> string \<Rightarrow> js_value \<Rightarrow> dict" where
  "set_prop acc k v = (if k = ''__proto__'' then acc else own_set acc k v)"

definition or_zero :: "js_value option \<Rightarrow> js_value" where
  "or_zero x =
     (case x of
        None \<Rightarrow> Number (Num 0)
      | Some (Number n) \<Rightarrow> if falsy n then Number (Num 0) else Number n
      | Some (Str s) \<Rightarrow> Str s)"

definition plus_number :: "js_value \<Rightarrow> number \<Rightarrow> js_value" where
  "plus_number v n = (case v of Number a \<Rightarrow> Number (fadd a n) | Str s \<Rightarrow> Str (Appended s n))"

definition getExpensesByCategory :: "BudgetState \<Rightarrow> dict" where
  "getExpensesByCategory state =
     (let expenses = filter (\<lambda>t. type t = expense) (transactions state)
      in foldl (\<lambda>acc t. set_prop acc (category t)
                  (plus_number (or_zero (get_prop acc (category t))) (amount t)))
           [] expenses)"

text \<open>The step of the fold above, named for the proofs.\<close>

abbreviation (input) tally :: "dict \<Rightarrow> Transaction \<Rightarrow> dict" where
  "tally \<equiv> \<lambda>acc t. set_prop acc (category t)
              (plus_number (or_zero (get_prop acc (category t))) (amount t))"

definition getBudgetProgress :: "BudgetState \<Rightarrow> string \<Rightarrow> number" where
  "getBudgetProgress state cat =
     (case find (\<lambda>b. Budget.category b = cat) (budgets state) of
        None \<Rightarrow> Num 0
      | Some budget \<Rightarrow>
          (let spent = foldl (\<lambda>sum t. fadd sum (amount t)) (Num 0)
                 (filter (\<lambda>t. type t = expense \<and> category t = cat) (transactions state))
           in Math_min (fmul (fdiv spent (limit budget)) (Num 100)) (Num 100)))"

subsection \<open>Loading the persisted snapshot\<close>

text \<open>
  The value of \<open>JSON.parse\<close> is an untyped JSON value; the code passes it to the reducer as
  the payload of \<open>LOAD_DATA\<close> with no check. \<open>JSON.parse\<close> itself belongs to the platform:
  it is a parameter of the model, which either throws a \<open>SyntaxError\<close> or returns a value.
\<close>

datatype json =
    JNull
  | JBool bool
  | JNumber number
  | JString string
  | JArray "json list"
  | JObject "(string \<times> json) list"

datatype parse_result = SyntaxError | Parsed json

text \<open>
  The first effect of \<open>BudgetProvider\<close>. \<open>savedData\<close> is what \<open>localStorage.getItem\<close>
  returned (\<open>None\<close> is \<open>null\<close>); \<open>null\<close> and the empty string are falsy. The outcome records
  the payload of the \<open>LOAD_DATA\<close> action, if one was dispatched, and whether \<open>console.error\<close>
  was called.
\<close>

record load_outcome =
  dispatched :: "json option"
  logged :: bool

definition load_effect :: "(string \<Rightarrow> parse_result) \<Rightarrow> string option \<Rightarrow> load_outcome" where
  "load_effect JSON_parse savedData =
     (case savedData of
        None \<Rightarrow> \<lparr>dispatched = None, logged = False\<rparr>
      | Some text \<Rightarrow>
          if text = [] then \<lparr>dispatched = None, logged = False\<rparr>
          else (case JSON_parse text of
                  Parsed parsedData \<Rightarrow> \<lparr>dispatched = Some parsedData, logged = False\<rparr>
                | SyntaxError \<Rightarrow> \<lparr>dispatched = None, logged = True\<rparr>))"

text \<open>
  A JSON value has the shape of an interface when it is an object that carries every field
  of the interface with a value of the field's type (further properties are allowed, as
  in TypeScript). These readers return the typed value such a JSON value stands for.
\<close>

definition field :: "json \<Rightarrow> string \<Rightarrow> json option" where
  "field v k = (case v of JObject kvs \<Rightarrow> map_of kvs k | _ \<Rightarrow> None)"

definition string_field :: "json \<Rightarrow> string \<Rightarrow> string option" where
  "string_field v k = (case field v k of Some (JString s) \<Rightarrow> Some s | _ \<Rightarrow> None)"

definition number_field :: "json \<Rightarrow> string \<Rightarrow> number option" where
  "number_field v k = (case field v k of Some (JNumber x) \<Rightarrow> Some x | _ \<Rightarrow> None)"

definition array_field :: "json \<Rightarrow> string \<Rightarrow> json list option" where
  "array_field v k = (case field v k of Some (JArray xs) \<Rightarrow> Some xs | _ \<Rightarrow> None)"

definition as_TransactionType :: "string \<Rightarrow> TransactionType option" where
  "as_TransactionType s =
     (if s = ''income'' then Some income else if s = ''expense'' then Some expense else None)"

definition as_Transaction :: "json \<Rightarrow> Transaction option" where
  "as_Transaction v =
     (case (string_field v ''id'', number_field v ''amount'',
            Option.bind (string_field v ''type'') as_TransactionType,
            string_field v ''category'', string_field v ''date'',
            string_field v ''description'') of
        (Some i, Some a, Some ty, Some c, Some d, Some ds) \<Rightarrow>
          Some \<lparr>amount = a, type = ty, category = c, date = d, description = ds,
                Transaction.id = i\<rparr>
      | _ \<Rightarrow> None)"

definition as_Budget :: "json \<Rightarrow> Budget option" where
  "as_Budget v =
     (case (string_field v ''category'', number_field v ''limit'', number_field v ''spent'') of
        (Some c, Some l, Some sp) \<Rightarrow> Some \<lparr>Budget.category = c, limit = l, spent = sp\<rparr>
      | _ \<Rightarrow> None)"

definition as_Category :: "json \<Rightarrow> Category option" where
  "as_Category v =
     (case (string_field v ''id'', string_field v ''name'', string_field v ''icon'',
            string_field v ''color'') of
        (Some i, Some n, Some ic, Some co) \<Rightarrow>
          Some \<lparr>name = n, icon = ic, color = co, Category.id = i\<rparr>
      | _ \<Rightarrow> None)"

definition as_list :: "(json \<Rightarrow> 'a option) \<Rightarrow> json list \<Rightarrow> 'a list option" where
  "as_list f xs = (if list_all (\<lambda>x. f x \<noteq> None) xs then Some (map (\<lambda>x. the (f x)) xs) else None)"

definition as_BudgetState :: "json \<Rightarrow> BudgetState option" where
  "as_BudgetState v =
     (case (Option.bind (array_field v ''transactions'') (as_list as_Transaction),
            Option.bind (array_field v ''budgets'') (as_list as_Budget),
            Option.bind (array_field v ''categories'') (as_list as_Category)) of
        (Some ts, Some bs, Some cs) \<Rightarrow>
          Some \<lparr>transactions = ts, budgets = bs, categories = cs\<rparr>
      | _ \<Rightarrow> None)"

text \<open>
  The state of the provider once the first effect has run: the reducer starts from
  \<open>initialState\<close> and \<open>LOAD_DATA\<close> returns its payload. A payload without the shape of
  \<open>BudgetState\<close> becomes the state all the same; it is kept as the raw value.
\<close>

datatype provider_state = Snapshot BudgetState | Illshaped json

definition state_after_load :: "(string \<Rightarrow> parse_result) \<Rightarrow> string option \<Rightarrow> provider_state" where
  "state_after_load JSON_parse savedData =
     (case dispatched (load_effect JSON_parse savedData) of
        None \<Rightarrow> Snapshot initialState
      | Some parsedData \<Rightarrow>
          (case as_BudgetState parsedData of
             Some payload \<Rightarrow> Snapshot (budgetReducer initialState (LOAD_DATA payload))
           | None \<Rightarrow> Illshaped parsedData))"

subsection \<open>Notions used to state the properties\<close>

text \<open>
  The clock readings seen by the \<open>addTransaction\<close> calls of a sequence, in order.
\<close>

fun reading :: "call \<Rightarrow> nat list" where
  "reading (AddTransaction now transaction) = [now]"
| "reading (UpdateTransaction transaction) = []"
| "reading (DeleteTransaction i) = []"
| "reading (SetBudget budget) = []"
| "reading (AddCategory now c) = []"

definition transaction_clocks :: "call list \<Rightarrow> nat list" where
  "transaction_clocks calls = concat (map reading calls)"

text \<open>
  The number a string of decimal digits denotes: a left inverse of \<open>toString\<close>, which
  shows that different clock readings give different identifiers.
\<close>

definition digit_value :: "char \<Rightarrow> nat" where
  "digit_value c = of_char c - 48"

definition fromDigits :: "string \<Rightarrow> nat" where
  "fromDigits ds = foldl (\<lambda>n c. 10 * n + digit_value c) 0 ds"

text \<open>
  The left-to-right sum of a list of numbers, started at \<open>acc\<close>, is exact: every operand is
  finite and no addition rounds or overflows.
\<close>

fun sums_exactly :: "number \<Rightarrow> number list \<Rightarrow> bool" where
  "sums_exactly acc [] = True"
| "sums_exactly acc (x # xs) =
     (case (acc, x) of
        (Num a, Num b) \<Rightarrow> fadd acc x = Num (a + b) \<and> sums_exactly (Num (a + b)) xs
      | _ \<Rightarrow> False)"

text \<open>
  The values of a dictionary: whether one is a finite number, whether one is a zero, and
  the exact sum of the numbers among them.
\<close>

definition finite_value :: "js_value \<Rightarrow> bool" where
  "finite_value v = (case v of Number (Num r) \<Rightarrow> True | _ \<Rightarrow> False)"

definition zero_value :: "js_value \<Rightarrow> bool" where
  "zero_value v = (case v of Number n \<Rightarrow> is_zero n | Str s \<Rightarrow> False)"

definition value_sum :: "dict \<Rightarrow> real" where
  "value_sum d = sum_list (map (\<lambda>kv. case snd kv of Number n \<Rightarrow> val n | Str s \<Rightarrow> 0) d)"

text \<open>The tests \<open>x > 0\<close> and \<open>x >= 0\<close> of a number held by the program.\<close>

definition positive_double :: "number \<Rightarrow> bool" where
  "positive_double x = (is_double x \<and> js_less (Num 0) x)"

definition nonneg :: "number \<Rightarrow> bool" where
  "nonneg x = (case x of Num v \<Rightarrow> 0 \<le> v | NegZero \<Rightarrow> True | Infinity \<Rightarrow> True
               | NegInfinity \<Rightarrow> False | NaN \<Rightarrow> False)"

text \<open>
  Auxiliary notions of the proofs: a number that is \<open>0\<close> or more and not the negative zero,
  the number a dictionary holds for a key, the numeric content of a value, and a value
  that is a positive number or a string.
\<close>

definition plain_nonneg :: "number \<Rightarrow> bool" where
  "plain_nonneg x = (case x of Num v \<Rightarrow> 0 \<le> v | Infinity \<Rightarrow> True | _ \<Rightarrow> False)"

definition cur :: "dict \<Rightarrow> string \<Rightarrow> number" where
  "cur acc c = (case map_of acc c of Some (Number n) \<Rightarrow> n | _ \<Rightarrow> Num 0)"

definition number_of :: "js_value \<Rightarrow> real" where
  "number_of v = (case v of Number n \<Rightarrow> val n | Str s \<Rightarrow> 0)"

definition positive_value :: "js_value \<Rightarrow> bool" where
  "positive_value v =
     (case v of Number (Num r) \<Rightarrow> 0 < r | Number Infinity \<Rightarrow> True | Number _ \<Rightarrow> False
      | Str s \<Rightarrow> True)"

subsection \<open>Concrete records used in the examples\<close>

definition lunch :: Transaction where
  "lunch = \<lparr>amount = Num 500, type = expense, category = ''Food & Dining'',
            date = ''2024-01-10'', description = ''Lunch'', Transaction.id = ''1''\<rparr>"

definition salary :: Transaction where
  "salary = \<lparr>amount = Num 3000, type = income, category = ''Salary'', date = ''2024-01-01'',
             description = ''January'', Transaction.id = ''2''\<rparr>"

definition dinner :: Transaction where
  "dinner = \<lparr>amount = Num 600, type = expense, category = ''Food & Dining'',
             date = ''2024-01-11'', description = ''Dinner'', Transaction.id = ''3''\<rparr>"

definition ledger :: BudgetState where
  "ledger = \<lparr>transactions = [lunch, salary], budgets = [], categories = defaultCategories\<rparr>"

definition rerun :: Transaction where
  "rerun = \<lparr>amount = Num 450, type = expense, category = ''Food & Dining'',
            date = ''2024-01-12'', description = ''Lunch (corrected)'', Transaction.id = ''1''\<rparr>"

text \<open>A list in which two entries carry the identifier \<open>1\<close>.\<close>

definition clash :: BudgetState where
  "clash = \<lparr>transactions = [lunch, salary, lunch\<lparr>description := ''Copy''\<rparr>], budgets = [],
            categories = defaultCategories\<rparr>"

definition food1000 :: Budget where
  "food1000 = \<lparr>Budget.category = ''Food & Dining'', limit = Num 1000, spent = Num 500\<rparr>"

definition food1500 :: Budget where
  "food1500 = \<lparr>Budget.category = ''Food & Dining'', limit = Num 1500, spent = Num 500\<rparr>"

definition fuel200 :: Budget where
  "fuel200 = \<lparr>Budget.category = ''Transportation'', limit = Num 200, spent = Num 0\<rparr>"

definition planned :: BudgetState where
  "planned = \<lparr>transactions = [lunch], budgets = [fuel200], categories = defaultCategories\<rparr>"

definition dining :: BudgetState where
  "dining = \<lparr>transactions = [lunch, salary, dinner], budgets = [fuel200, food1000],
             categories = defaultCategories\<rparr>"

text \<open>The first two steps of the example of the specification: progress 50, then 100.\<close>

definition halfway :: BudgetState where
  "halfway = \<lparr>transactions = [lunch, salary], budgets = [fuel200, food1000],
              categories = defaultCategories\<rparr>"

text \<open>Payloads the store accepts although the forms would reject them.\<close>

definition freebie :: Transaction where
  "freebie = \<lparr>amount = Num 0, type = expense, category = ''Other'', date = ''2024-01-15'',
              description = ''Free sample'', Transaction.id = ''4''\<rparr>"

definition refund :: Transaction where
  "refund = \<lparr>amount = Num (- 50), type = expense, category = ''Food & Dining'',
             date = ''2024-01-16'', description = ''Refund'', Transaction.id = ''5''\<rparr>"

definition food0 :: Budget where
  "food0 = \<lparr>Budget.category = ''Food & Dining'', limit = Num 0, spent = Num 0\<rparr>"

text \<open>An expense of 7 against a limit of 1000: the quotient and the product both round.\<close>

definition snack :: Transaction where
  "snack = \<lparr>amount = Num 7, type = expense, category = ''Food & Dining'',
            date = ''2024-01-17'', description = ''Snack'', Transaction.id = ''6''\<rparr>"

text \<open>
  Three expenses entered as \<open>0.1\<close>, \<open>0.1\<close> and \<open>1.1\<close>, in two categories, and an expense whose
  category is named \<open>__proto__\<close>.
\<close>

definition tenth :: number where
  "tenth = Num (3602879701896397 / 2 ^ 55)"

definition eleven_tenths :: number where
  "eleven_tenths = Num (2476979795053773 / 2 ^ 51)"

definition coffees :: BudgetState where
  "coffees =
     \<lparr>transactions =
        [\<lparr>amount = tenth, type = expense, category = ''Shopping'', date = ''2024-01-18'',
          description = ''Gum'', Transaction.id = ''7''\<rparr>,
         \<lparr>amount = tenth, type = expense, category = ''Other'', date = ''2024-01-18'',
          description = ''Tip'', Transaction.id = ''8''\<rparr>,
         \<lparr>amount = eleven_tenths, type = expense, category = ''Shopping'', date = ''2024-01-18'',
          description = ''Pen'', Transaction.id = ''9''\<rparr>],
      budgets = [], categories = defaultCategories\<rparr>"

definition proto :: BudgetState where
  "proto =
     \<lparr>transactions =
        [\<lparr>amount = Num 500, type = expense, category = ''__proto__'', date = ''2024-01-19'',
          description = ''Lunch'', Transaction.id = ''10''\<rparr>],
      budgets = [], categories = defaultCategories\<rparr>"

definition lunch_form :: Omit_Transaction_id where
  "lunch_form = \<lparr>amount = Num 500, type = expense, category = ''Food & Dining'',
                 date = ''2024-01-10'', description = ''Lunch''\<rparr>"

definition dinner_form :: Omit_Transaction_id where
  "dinner_form = \<lparr>amount = Num 600, type = expense, category = ''Food & Dining'',
                  date = ''2024-01-11'', description = ''Dinner''\<rparr>"

definition double_click :: "call list" where
  "double_click = [AddTransaction 1704880000000 lunch_form, AddTransaction 1704880000000 lunch_form]"

definition session :: "call list" where
  "session = [AddTransaction 1704880000000 lunch_form, AddTransaction 1704880000001 dinner_form,
              UpdateTransaction rerun, DeleteTransaction ''1704880000000'',
              AddTransaction 1704880000002 lunch_form]"

text \<open>
  A snapshot as the store persists it after one \<open>addTransaction\<close> and, with the seed
  categories removed for brevity, one \<open>addCategory\<close>: both callbacks put \<open>id\<close> last.
\<close>

definition pets :: BudgetState where
  "pets =
     \<lparr>transactions =
        [\<lparr>amount = Num 500, type = expense, category = ''Pets'', date = ''2024-01-10'',
          description = ''Vet'', Transaction.id = ''1704880000000''\<rparr>],
      budgets = [\<lparr>Budget.category = ''Pets'', limit = Num 1000, spent = Num 500\<rparr>],
      categories =
        [\<lparr>name = ''Pets'', icon = ''*'', color = ''#112233'', Category.id = ''1704880000001''\<rparr>]\<rparr>"

definition pets_text :: string where
  \<open>pets_text = ''{"transactions":[{"amount":500,"type":"expense","category":"Pets","date":"2024-01-10","description":"Vet","id":"1704880000000"}],"budgets":[{"category":"Pets","limit":1000,"spent":500}],"categories":[{"name":"Pets","icon":"*","color":"#112233","id":"1704880000001"}]}''\<close>

definition pets_json :: json where
  "pets_json =
     JObject
       [(''transactions'', JArray
          [JObject [(''amount'', JNumber (Num 500)), (''type'', JString ''expense''),
                    (''category'', JString ''Pets''), (''date'', JString ''2024-01-10''),
                    (''description'', JString ''Vet''), (''id'', JString ''1704880000000'')]]),
        (''budgets'', JArray
          [JObject [(''category'', JString ''Pets''), (''limit'', JNumber (Num 1000)),
                    (''spent'', JNumber (Num 500))]]),
        (''categories'', JArray
          [JObject [(''name'', JString ''Pets''), (''icon'', JString ''*''),
                    (''color'', JString ''#112233''), (''id'', JString ''1704880000001'')]])]"

text \<open>
  What \<open>JSON.parse\<close> does on the stored texts of the examples: \<open>{}\<close> and the text above are
  valid JSON; a text cut off in the middle is not.
\<close>

definition JSON_parse_sample :: "string \<Rightarrow> parse_result" where
  "JSON_parse_sample text =
     (if text = ''{}'' then Parsed (JObject [])
      else if text = pets_text then Parsed pets_json
      else SyntaxError)"

section \<open>Properties\<close>

subsection \<open>Facts about rounding\<close>

text \<open>
  The bit count brackets a positive integer between two powers of two, so \<open>ilog2\<close> never
  exceeds the binary logarithm. Hence rounding keeps the sign, and a magnitude of at
  least the smallest subnormal number, \<open>2 ^ -1074\<close>, is not rounded to zero.
\<close>

lemma bits_pos: "0 < n \<Longrightarrow> 1 \<le> bits n"
proof (induction n rule: bits.induct)
  case (1 n)
  have "0 \<le> bits (n div 2)"
  proof (cases "n div 2 \<le> 0")
    case True
    then show ?thesis by (simp add: bits.simps [of "n div 2"])
  next
    case False
    with 1 show ?thesis by simp
  qed
  with 1 show ?case
    by (simp add: bits.simps [of n])
qed

lemma bits_lower: "0 < n \<Longrightarrow> 2 ^ nat (bits n - 1) \<le> n"
proof (induction n rule: bits.induct)
  case (1 n)
  show ?case
  proof (cases "n div 2 \<le> 0")
    case True
    with 1 have "n = 1" by linarith
    then show ?thesis by (simp add: bits.simps [of 1] bits.simps [of 0])
  next
    case False
    then have pos: "0 < n div 2" by simp
    with 1 have ih: "2 ^ nat (bits (n div 2) - 1) \<le> n div 2" by simp
    from pos have b: "1 \<le> bits (n div 2)" by (rule bits_pos)
    from 1 have "bits n = bits (n div 2) + 1"
      by (simp add: bits.simps [of n])
    then have "nat (bits n - 1) = Suc (nat (bits (n div 2) - 1))"
      using b by simp
    then have "(2::int) ^ nat (bits n - 1) = 2 * 2 ^ nat (bits (n div 2) - 1)"
      by simp
    also have "\<dots> \<le> 2 * (n div 2)" using ih by simp
    also have "\<dots> \<le> n" by simp
    finally show ?thesis .
  qed
qed

lemma bits_upper: "0 \<le> n \<Longrightarrow> n < 2 ^ nat (bits n)"
proof (induction n rule: bits.induct)
  case (1 n)
  show ?case
  proof (cases "n \<le> 0")
    case True
    with 1 show ?thesis by (simp add: bits.simps [of n])
  next
    case False
    with 1 have ih: "n div 2 < 2 ^ nat (bits (n div 2))" by simp
    have b: "0 \<le> bits (n div 2)"
      using bits_pos [of "n div 2"] by (cases "0 < n div 2") (simp_all add: bits.simps [of "n div 2"])
    from False have "bits n = bits (n div 2) + 1"
      by (simp add: bits.simps [of n])
    then have "nat (bits n) = Suc (nat (bits (n div 2)))"
      using b by simp
    then have "(2::int) ^ nat (bits n) = 2 * 2 ^ nat (bits (n div 2))"
      by simp
    moreover have "n < 2 * (n div 2 + 1)" by presburger
    ultimately show ?thesis using ih by linarith
  qed
qed

lemma ilog2_lower:
  assumes "0 < a"
  shows "2 powi (ilog2 a) \<le> a"
proof (cases "1 \<le> a")
  case True
  then have f: "0 < \<lfloor>a\<rfloor>" by simp
  then have b: "1 \<le> bits \<lfloor>a\<rfloor>" by (rule bits_pos)
  have "(2::real) powi (bits \<lfloor>a\<rfloor> - 1) = 2 ^ nat (bits \<lfloor>a\<rfloor> - 1)"
    using b by (simp add: power_int_def)
  also have "\<dots> = of_int (2 ^ nat (bits \<lfloor>a\<rfloor> - 1))" by simp
  also have "\<dots> \<le> of_int \<lfloor>a\<rfloor>"
    using bits_lower [OF f] by (simp only: of_int_le_iff)
  also have "\<dots> \<le> a" by simp
  finally show ?thesis using True by (simp add: ilog2_def)
next
  case False
  define N where "N = \<lceil>1 / a\<rceil>"
  from False assms have "1 < 1 / a" by simp
  then have N: "2 \<le> N" unfolding N_def by linarith
  have c: "0 \<le> bits (N - 1)" using bits_pos [of "N - 1"] N by simp
  have "1 / a \<le> of_int N" unfolding N_def by simp
  also have "N \<le> 2 ^ nat (bits (N - 1))"
    using bits_upper [of "N - 1"] N by simp
  then have "(of_int N :: real) \<le> of_int (2 ^ nat (bits (N - 1)))"
    by (simp only: of_int_le_iff)
  finally have "1 / a \<le> 2 ^ nat (bits (N - 1))" by simp
  then have "1 / 2 ^ nat (bits (N - 1)) \<le> a"
    using assms by (simp add: field_simps)
  moreover have "(2::real) powi (- bits (N - 1)) = 1 / 2 ^ nat (bits (N - 1))"
    using c by (simp add: power_int_def field_simps)
  ultimately show ?thesis using False by (simp add: ilog2_def N_def)
qed

lemma nearest_even_floor: "\<lfloor>x\<rfloor> \<le> nearest_even x"
  by (simp add: nearest_even_def Let_def)

lemma round_to_nonneg:
  assumes "0 \<le> a"
  shows "round_to False a = Infinity \<or> (\<exists>v\<ge>0. round_to False a = Num v)"
proof -
  define q where "q = max (ilog2 a - 52) (- 1074)"
  define m where "m = nearest_even (a / 2 powi q)"
  have "0 \<le> a / 2 powi q" using assms by simp
  then have "0 \<le> \<lfloor>a / 2 powi q\<rfloor>" by simp
  then have "0 \<le> m" unfolding m_def using nearest_even_floor [of "a / 2 powi q"] by linarith
  then have "0 \<le> of_int m * (2::real) powi q" by simp
  then show ?thesis
    unfolding round_to_def q_def [symmetric] Let_def m_def [symmetric]
    by (auto simp: signed_zero_def signed_inf_def)
qed

lemma round_to_pos:
  assumes "2 powi (- 1074) \<le> a"
  shows "round_to False a = Infinity \<or> (\<exists>v>0. round_to False a = Num v)"
proof -
  define q where "q = max (ilog2 a - 52) (- 1074)"
  define m where "m = nearest_even (a / 2 powi q)"
  have "0 < (2::real) powi (- 1074)" by simp
  with assms have a: "0 < a" by linarith
  have "2 powi q \<le> a"
  proof (cases "ilog2 a - 52 \<le> - 1074")
    case True
    then have "q = - 1074" by (simp add: q_def)
    with assms show ?thesis by simp
  next
    case False
    then have "q = ilog2 a - 52" by (simp add: q_def)
    then have "(2::real) powi q \<le> 2 powi (ilog2 a)"
      by (simp add: power_int_increasing)
    with ilog2_lower [OF a] show ?thesis by linarith
  qed
  then have "1 \<le> a / 2 powi q" by (simp add: field_simps)
  then have "1 \<le> \<lfloor>a / 2 powi q\<rfloor>" by simp
  then have m: "1 \<le> m" unfolding m_def using nearest_even_floor [of "a / 2 powi q"] by linarith
  then have "0 < of_int m * (2::real) powi q" by simp
  with m a show ?thesis
    unfolding round_to_def q_def [symmetric] Let_def m_def [symmetric]
    by (auto simp: signed_zero_def signed_inf_def)
qed

lemma is_double_least:
  assumes "is_double (Num r)" "0 < r"
  shows "2 powi (- 1074) \<le> r"
proof -
  define q where "q = max (ilog2 r - 52) (- 1074)"
  define m where "m = nearest_even (r / 2 powi q)"
  from assms have "round_to False r = Num r"
    by (simp add: is_double_def double_def)
  with assms(2) have r: "r = of_int m * 2 powi q"
    unfolding round_to_def q_def [symmetric] Let_def m_def [symmetric]
    by (simp add: signed_zero_def signed_inf_def split: if_splits)
  with assms(2) have "0 < of_int m * (2::real) powi q" by simp
  moreover have "0 < (2::real) powi q" by simp
  ultimately have "0 < (of_int m :: real)" by (simp add: zero_less_mult_iff)
  then have "0 < m" by simp
  then have "(1::real) \<le> of_int m" by linarith
  then have "1 * (2::real) powi q \<le> of_int m * 2 powi q"
    by (rule mult_right_mono) simp
  then have "(2::real) powi q \<le> of_int m * 2 powi q"
    by simp
  moreover have "(2::real) powi (- 1074) \<le> 2 powi q"
    by (rule power_int_increasing) (simp_all add: q_def)
  ultimately show ?thesis using r by linarith
qed

lemmas number_eval = fadd_def fsub_def fneg_def fmul_def fdiv_def Math_min_def js_less_def is_inf_def
  is_zero_def negative_def val_def signed_zero_def signed_inf_def round_to_def ilog2_def
  nearest_even_def bits.simps Let_def

subsection \<open>Adding a transaction\<close>

text \<open>
  Claim C5. For every payload, clock reading and snapshot, \<open>addTransaction\<close> yields a
  transaction list with exactly one more element; the new entry is the last one, and its
  amount, type, category, date and description are those of the payload. Only the
  identifier is new: it is the decimal text of the clock reading.
\<close>

theorem addTransaction_appends_one:
  "length (transactions (addTransaction now state tx)) = length (transactions state) + 1 \<and>
   (\<exists>new. transactions (addTransaction now state tx) = transactions state @ [new] \<and>
      amount new = amount tx \<and> type new = type tx \<and> category new = category tx \<and>
      date new = date tx \<and> description new = description tx \<and>
      Transaction.id new = toString now)"
  by (simp add: addTransaction_def)

subsection \<open>Frame conditions\<close>

text \<open>
  Claim C9. Each mutation leaves the components it does not target as they were: the three
  transaction mutations keep budgets and categories, \<open>setBudget\<close> keeps transactions and
  categories, \<open>addCategory\<close> keeps transactions and budgets.
\<close>

theorem mutations_frame:
  "budgets (addTransaction now state tx) = budgets state \<and>
   categories (addTransaction now state tx) = categories state \<and>
   budgets (updateTransaction state t) = budgets state \<and>
   categories (updateTransaction state t) = categories state \<and>
   budgets (deleteTransaction state i) = budgets state \<and>
   categories (deleteTransaction state i) = categories state \<and>
   transactions (setBudget state b) = transactions state \<and>
   categories (setBudget state b) = categories state \<and>
   transactions (addCategory now state c) = transactions state \<and>
   budgets (addCategory now state c) = budgets state"
  by (simp add: addTransaction_def updateTransaction_def deleteTransaction_def setBudget_def
      addCategory_def)

subsection \<open>Balance\<close>

text \<open>
  Claim C4. In every snapshot reached from any snapshot by any sequence of mutation calls,
  \<open>calculateBalance\<close> is \<open>calculateTotalIncome\<close> minus \<open>calculateTotalExpenses\<close>, the
  subtraction being the one of the language.
\<close>

theorem balance_is_income_minus_expenses:
  "calculateBalance (run state calls) =
     fsub (calculateTotalIncome (run state calls)) (calculateTotalExpenses (run state calls))"
  by (simp add: calculateBalance_def)

subsection \<open>Mutations that name an unknown identifier\<close>

text \<open>
  Claim C6. When no transaction of the list carries the identifier, \<open>updateTransaction\<close>
  with a payload of that identifier and \<open>deleteTransaction\<close> with that identifier both
  return the snapshot unchanged. Both callbacks are total: there is no error result.
\<close>

theorem unknown_id_is_noop:
  assumes "\<forall>t \<in> set (transactions state). Transaction.id t \<noteq> Transaction.id payload"
  shows "updateTransaction state payload = state \<and>
         deleteTransaction state (Transaction.id payload) = state"
proof -
  have "map (\<lambda>t. if Transaction.id t = Transaction.id payload then payload else t)
          (transactions state) = transactions state"
    using assms by (simp add: map_idI)
  moreover have "filter (\<lambda>t. Transaction.id t \<noteq> Transaction.id payload) (transactions state)
          = transactions state"
    using assms by simp
  ultimately show ?thesis
    by (simp add: updateTransaction_def deleteTransaction_def)
qed

theorem unknown_id_is_noop_witness:
  "Transaction.id lunch \<noteq> Transaction.id dinner \<and>
   Transaction.id salary \<noteq> Transaction.id dinner \<and>
   updateTransaction ledger dinner = ledger \<and>
   deleteTransaction ledger (Transaction.id dinner) = ledger"
proof -
  have unknown: "\<forall>t \<in> set (transactions ledger). Transaction.id t \<noteq> Transaction.id dinner"
    by (simp add: ledger_def lunch_def salary_def dinner_def)
  from unknown unknown_id_is_noop [OF unknown] show ?thesis
    by (simp add: ledger_def)
qed

subsection \<open>Update and delete act on every match\<close>

text \<open>
  Claim C10. \<open>updateTransaction\<close> keeps the length of the list and puts the payload at
  every position whose entry has the payload's identifier, not only the first;
  \<open>deleteTransaction\<close> leaves no entry with the given identifier. In both cases the
  entries with another identifier stay, in their original relative order.
\<close>

theorem update_delete_every_match:
  "length (transactions (updateTransaction state p)) = length (transactions state) \<and>
   (\<forall>k < length (transactions state).
      transactions (updateTransaction state p) ! k =
        (if Transaction.id (transactions state ! k) = Transaction.id p then p
         else transactions state ! k)) \<and>
   (\<forall>t \<in> set (transactions (deleteTransaction state i)). Transaction.id t \<noteq> i) \<and>
   filter (\<lambda>t. Transaction.id t \<noteq> i) (transactions (deleteTransaction state i)) =
     filter (\<lambda>t. Transaction.id t \<noteq> i) (transactions state) \<and>
   filter (\<lambda>t. Transaction.id t \<noteq> Transaction.id p) (transactions (updateTransaction state p)) =
     filter (\<lambda>t. Transaction.id t \<noteq> Transaction.id p) (transactions state)"
proof -
  have "filter (\<lambda>t. Transaction.id t \<noteq> Transaction.id p)
          (map (\<lambda>t. if Transaction.id t = Transaction.id p then p else t) ts) =
        filter (\<lambda>t. Transaction.id t \<noteq> Transaction.id p) ts" for ts
    by (induction ts) simp_all
  then show ?thesis
    by (simp add: updateTransaction_def deleteTransaction_def)
qed

theorem update_delete_every_match_witness:
  "length (transactions (updateTransaction clash rerun)) = 3 \<and>
   transactions (updateTransaction clash rerun) ! 0 = rerun \<and>
   transactions (updateTransaction clash rerun) ! 1 = salary \<and>
   transactions (updateTransaction clash rerun) ! 2 = rerun \<and>
   filter (\<lambda>t. Transaction.id t \<noteq> ''1'') (transactions (deleteTransaction clash ''1'')) = [salary]"
proof -
  note every = update_delete_every_match [of clash rerun "''1''"]
  have at: "transactions (updateTransaction clash rerun) ! k =
        (if Transaction.id (transactions clash ! k) = Transaction.id rerun then rerun
         else transactions clash ! k)" if "k < length (transactions clash)" for k
    using every that by blast
  have len: "length (transactions clash) = 3"
    by (simp add: clash_def)
  show ?thesis
    using every at [of 0] at [of 1] at [of 2] len
    by (simp add: clash_def lunch_def salary_def rerun_def)
qed

subsection \<open>Budgets are upserted by category\<close>

lemma replace_unique:
  "distinct (map Budget.category bs) \<Longrightarrow> list_ex (\<lambda>b. Budget.category b = Budget.category p) bs \<Longrightarrow>
   filter (\<lambda>b. Budget.category b = Budget.category p)
     (map (\<lambda>b. if Budget.category b = Budget.category p then p else b) bs) = [p]"
proof (induction bs)
  case Nil
  then show ?case by simp
next
  case (Cons b bs)
  show ?case
  proof (cases "Budget.category b = Budget.category p")
    case True
    with Cons.prems have "Budget.category p \<notin> Budget.category ` set bs"
      by simp
    then have "\<forall>x \<in> set bs. Budget.category x \<noteq> Budget.category p"
      by (metis image_eqI)
    then have "filter (\<lambda>b. Budget.category b = Budget.category p)
                 (map (\<lambda>b. if Budget.category b = Budget.category p then p else b) bs) = []"
      by (auto simp: filter_empty_conv)
    with True show ?thesis by simp
  next
    case False
    with Cons show ?thesis by simp
  qed
qed

lemma replace_index:
  "distinct (map Budget.category bs) \<Longrightarrow> list_ex (\<lambda>b. Budget.category b = Budget.category p) bs \<Longrightarrow>
   \<exists>k < length bs. Budget.category (bs ! k) = Budget.category p \<and>
     map (\<lambda>b. if Budget.category b = Budget.category p then p else b) bs = bs[k := p]"
proof (induction bs)
  case Nil
  then show ?case by simp
next
  case (Cons b bs)
  show ?case
  proof (cases "Budget.category b = Budget.category p")
    case True
    with Cons.prems have "Budget.category p \<notin> Budget.category ` set bs"
      by simp
    then have "\<forall>x \<in> set bs. Budget.category x \<noteq> Budget.category p"
      by (metis image_eqI)
    then have "map (\<lambda>b. if Budget.category b = Budget.category p then p else b) bs = bs"
      by (simp add: map_idI)
    with True have "Budget.category ((b # bs) ! 0) = Budget.category p \<and>
       map (\<lambda>b. if Budget.category b = Budget.category p then p else b) (b # bs) = (b # bs)[0 := p]"
      by simp
    then show ?thesis by blast
  next
    case False
    with Cons obtain k where k: "k < length bs" "Budget.category (bs ! k) = Budget.category p"
       "map (\<lambda>b. if Budget.category b = Budget.category p then p else b) bs = bs[k := p]"
      by auto
    with False have "Suc k < length (b # bs) \<and> Budget.category ((b # bs) ! Suc k) = Budget.category p \<and>
       map (\<lambda>b. if Budget.category b = Budget.category p then p else b) (b # bs) = (b # bs)[Suc k := p]"
      by simp
    then show ?thesis by blast
  qed
qed

lemma setBudget_categories:
  "map Budget.category (budgets (setBudget state p)) =
     (if list_ex (\<lambda>b. Budget.category b = Budget.category p) (budgets state)
      then map Budget.category (budgets state)
      else map Budget.category (budgets state) @ [Budget.category p])"
proof -
  have "map Budget.category (map (\<lambda>b. if Budget.category b = Budget.category p then p else b) bs)
        = map Budget.category bs" for bs
    by (induction bs) simp_all
  then show ?thesis by (simp add: setBudget_def)
qed

text \<open>
  Claim C3. In a snapshot with at most one budget per category, two \<open>setBudget\<close> calls
  with the same category leave exactly one budget of that category, the one of the
  second call (so with its limit), and the categories stay unique. A first call for a
  category without a budget appends; otherwise it replaces the existing entry where it
  stands.
\<close>

theorem setBudget_upsert:
  assumes unique: "distinct (map Budget.category (budgets state))"
    and same: "Budget.category b1 = Budget.category b2"
  shows "filter (\<lambda>b. Budget.category b = Budget.category b2)
           (budgets (setBudget (setBudget state b1) b2)) = [b2] \<and>
         distinct (map Budget.category (budgets (setBudget (setBudget state b1) b2))) \<and>
         (if list_ex (\<lambda>b. Budget.category b = Budget.category b1) (budgets state)
          then \<exists>k < length (budgets state).
                 Budget.category (budgets state ! k) = Budget.category b1 \<and>
                 budgets (setBudget state b1) = (budgets state)[k := b1]
          else budgets (setBudget state b1) = budgets state @ [b1])"
proof -
  let ?s1 = "setBudget state b1"
  have d1: "distinct (map Budget.category (budgets ?s1))"
    using unique by (auto simp: setBudget_categories list_ex_iff)
  have ex1: "list_ex (\<lambda>b. Budget.category b = Budget.category b2) (budgets ?s1)"
    using same by (auto simp: setBudget_def list_ex_iff)
  have "budgets (setBudget ?s1 b2) =
          map (\<lambda>b. if Budget.category b = Budget.category b2 then b2 else b) (budgets ?s1)"
    using ex1 by (simp add: setBudget_def)
  then have one: "filter (\<lambda>b. Budget.category b = Budget.category b2)
           (budgets (setBudget ?s1 b2)) = [b2]"
    using replace_unique [OF d1 ex1] by simp
  have d2: "distinct (map Budget.category (budgets (setBudget ?s1 b2)))"
    using d1 ex1 by (simp add: setBudget_categories)
  have shape: "if list_ex (\<lambda>b. Budget.category b = Budget.category b1) (budgets state)
          then \<exists>k < length (budgets state).
                 Budget.category (budgets state ! k) = Budget.category b1 \<and>
                 budgets (setBudget state b1) = (budgets state)[k := b1]
          else budgets (setBudget state b1) = budgets state @ [b1]"
  proof (cases "list_ex (\<lambda>b. Budget.category b = Budget.category b1) (budgets state)")
    case True
    with replace_index [OF unique True] show ?thesis
      by (simp add: setBudget_def)
  next
    case False
    then show ?thesis by (simp add: setBudget_def)
  qed
  from one d2 shape show ?thesis by blast
qed

theorem setBudget_upsert_witness:
  "distinct (map Budget.category (budgets planned)) \<and>
   Budget.category food1000 = Budget.category food1500 \<and>
   filter (\<lambda>b. Budget.category b = ''Food & Dining'')
     (budgets (setBudget (setBudget planned food1000) food1500)) = [food1500] \<and>
   budgets (setBudget planned food1000) = [fuel200, food1000]"
proof -
  have unique: "distinct (map Budget.category (budgets planned))"
    by (simp add: planned_def)
  have same: "Budget.category food1000 = Budget.category food1500"
    by (simp add: food1000_def food1500_def)
  have absent: "\<not> list_ex (\<lambda>b. Budget.category b = Budget.category food1000) (budgets planned)"
    by (simp add: planned_def fuel200_def food1000_def)
  have named: "Budget.category food1500 = ''Food & Dining''"
    by (simp add: food1500_def)
  have before: "budgets planned = [fuel200]"
    by (simp add: planned_def)
  from unique same absent setBudget_upsert [OF unique same] show ?thesis
    by (simp add: named before)
qed

subsection \<open>Expenses by category\<close>

lemma map_of_own_set: "map_of (own_set acc k v) c = (if c = k then Some v else map_of acc c)"
  by (induction acc) auto

lemma keys_own_set:
  "map fst (own_set acc k v) = (if k \<in> fst ` set acc then map fst acc else map fst acc @ [k])"
  by (induction acc) force+

lemma entries_own_set: "(j, w) \<in> set (own_set acc k v) \<Longrightarrow> w = v \<or> (j, w) \<in> set acc"
  by (induction acc) (auto split: if_splits)

lemma values_own_set:
  assumes "w \<in> set (map snd (own_set acc k v))"
  shows "w = v \<or> w \<in> set (map snd acc)"
proof -
  from assms obtain j where "(j, w) \<in> set (own_set acc k v)" by auto
  then have "w = v \<or> (j, w) \<in> set acc" by (rule entries_own_set)
  then show ?thesis by force
qed

lemma value_sum_own_set:
  "value_sum (own_set acc k v) =
     value_sum acc - (case map_of acc k of Some u \<Rightarrow> number_of u | None \<Rightarrow> 0) + number_of v"
  by (induction acc) (auto simp: value_sum_def number_of_def)

lemma distinct_set_prop: "distinct (map fst acc) \<Longrightarrow> distinct (map fst (set_prop acc k v))"
  by (simp add: set_prop_def keys_own_set)

lemma tally_distinct:
  "distinct (map fst acc) \<Longrightarrow> distinct (map fst (foldl tally acc xs))"
  by (induction xs arbitrary: acc) (simp_all add: distinct_set_prop)

lemma map_of_set_prop:
  "map_of (set_prop acc k v) c = (if c = k \<and> k \<noteq> ''__proto__'' then Some v else map_of acc c)"
  by (simp add: set_prop_def map_of_own_set)

lemma tally_absent:
  "\<not> list_ex (\<lambda>t. category t = c) xs \<Longrightarrow> map_of (foldl tally acc xs) c = map_of acc c"
  by (induction xs arbitrary: acc) (auto simp: map_of_set_prop)

lemma tally_keeps:
  "map_of acc c \<noteq> None \<Longrightarrow> map_of (foldl tally acc xs) c \<noteq> None"
proof (induction xs arbitrary: acc)
  case Nil
  then show ?case by simp
next
  case (Cons x xs)
  from Cons.prems have "map_of (tally acc x) c \<noteq> None"
    by (simp add: map_of_set_prop)
  then show ?case using Cons.IH by simp
qed

lemma tally_present:
  "c \<noteq> ''__proto__'' \<Longrightarrow> list_ex (\<lambda>t. category t = c) xs \<Longrightarrow>
   map_of (foldl tally acc xs) c \<noteq> None"
proof (induction xs arbitrary: acc)
  case Nil
  then show ?case by simp
next
  case (Cons x xs)
  show ?case
  proof (cases "category x = c")
    case True
    with Cons.prems(1) have "map_of (tally acc x) c \<noteq> None"
      by (simp add: map_of_set_prop)
    then show ?thesis using tally_keeps by simp
  next
    case False
    with Cons show ?thesis by simp
  qed
qed

lemma sums_exactly_foldl:
  "sums_exactly (Num v) ns \<Longrightarrow> foldl fadd (Num v) ns = Num (v + sum_list (map val ns))"
proof (induction ns arbitrary: v)
  case Nil
  then show ?case by simp
next
  case (Cons n ns)
  then obtain b where n: "n = Num b" and add: "fadd (Num v) n = Num (v + b)"
    and rest: "sums_exactly (Num (v + b)) ns"
    by (auto split: number.splits)
  from Cons.IH [OF rest] add n show ?case
    by (simp add: val_def add.assoc)
qed

lemma foldl_amounts:
  "foldl (\<lambda>sum t. fadd sum (amount t)) a ts = foldl fadd a (map amount ts)"
  by (induction ts arbitrary: a) simp_all

lemma tally_exact:
  assumes "\<forall>v \<in> set (map snd acc). finite_value v"
    and "\<forall>x \<in> set xs. \<not> inherited (category x)"
    and "\<And>c. sums_exactly (cur acc c) (map amount (filter (\<lambda>t. category t = c) xs))"
  shows "(\<forall>v \<in> set (map snd (foldl tally acc xs)). finite_value v) \<and>
         value_sum (foldl tally acc xs) = value_sum acc + sum_list (map (\<lambda>t. val (amount t)) xs) \<and>
         (\<forall>c. list_ex (\<lambda>t. category t = c) xs \<longrightarrow>
            map_of (foldl tally acc xs) c =
              Some (Number (Num (val (cur acc c) +
                sum_list (map (\<lambda>t. val (amount t)) (filter (\<lambda>t. category t = c) xs))))))"
  using assms
proof (induction xs arbitrary: acc)
  case Nil
  then show ?case by simp
next
  case (Cons x xs)
  let ?k = "category x"
  from Cons.prems(3) [of ?k] obtain v b where v: "cur acc ?k = Num v" and b: "amount x = Num b"
    and add: "fadd (Num v) (Num b) = Num (v + b)"
    and rest: "sums_exactly (Num (v + b)) (map amount (filter (\<lambda>t. category t = ?k) xs))"
    by (auto split: number.splits)
  from Cons.prems(2) have k: "\<not> inherited ?k" by simp
  then have k': "?k \<noteq> ''__proto__''" by (auto simp: inherited_def)
  have old: "or_zero (get_prop acc ?k) = Number (Num v)"
  proof (cases "map_of acc ?k")
    case None
    with v k show ?thesis by (simp add: get_prop_def or_zero_def cur_def)
  next
    case (Some w)
    then have "w \<in> set (map snd acc)" by (force dest: map_of_SomeD)
    with Cons.prems(1) have "finite_value w" by blast
    with Some v have "w = Number (Num v)"
      by (auto simp: finite_value_def cur_def split: js_value.splits number.splits)
    with Some show ?thesis
      by (auto simp: get_prop_def or_zero_def falsy_def is_zero_def)
  qed
  define acc' where "acc' = tally acc x"
  have step: "acc' = own_set acc ?k (Number (Num (v + b)))"
    using k' by (simp add: acc'_def old b plus_number_def add set_prop_def)
  have unfold: "foldl tally acc (x # xs) = foldl tally acc' xs"
    by (simp add: acc'_def)
  have oldval: "(case map_of acc ?k of Some u \<Rightarrow> number_of u | None \<Rightarrow> 0) = v"
    using v Cons.prems(1)
    by (cases "map_of acc ?k")
      (auto simp: cur_def number_of_def val_def finite_value_def dest!: map_of_SomeD
        split: js_value.splits number.splits)
  have fin: "\<forall>w \<in> set (map snd acc'). finite_value w"
  proof
    fix w assume "w \<in> set (map snd acc')"
    then have "w = Number (Num (v + b)) \<or> w \<in> set (map snd acc)"
      unfolding step by (rule values_own_set)
    with Cons.prems(1) show "finite_value w"
      by (auto simp: finite_value_def)
  qed
  have curs: "cur acc' c = (if c = ?k then Num (v + b) else cur acc c)" for c
    unfolding step by (simp add: cur_def map_of_own_set)
  have exact: "sums_exactly (cur acc' c) (map amount (filter (\<lambda>t. category t = c) xs))" for c
    using Cons.prems(3) [of c] rest by (cases "c = ?k") (auto simp: curs)
  from Cons.prems(2) have inh: "\<forall>x \<in> set xs. \<not> inherited (category x)" by simp
  note ih = Cons.IH [OF fin inh exact]
  have sum: "value_sum acc' = value_sum acc + b"
    unfolding step by (simp add: value_sum_own_set oldval number_of_def val_def)
  have key: "map_of (foldl tally acc' xs) c =
      Some (Number (Num (val (cur acc c) +
        sum_list (map (\<lambda>t. val (amount t)) (filter (\<lambda>t. category t = c) (x # xs))))))"
    if c: "list_ex (\<lambda>t. category t = c) (x # xs)" for c
  proof (cases "list_ex (\<lambda>t. category t = c) xs")
    case True
    with ih have "map_of (foldl tally acc' xs) c =
      Some (Number (Num (val (cur acc' c) +
        sum_list (map (\<lambda>t. val (amount t)) (filter (\<lambda>t. category t = c) xs)))))"
      by blast
    moreover have "val (cur acc' c) +
        sum_list (map (\<lambda>t. val (amount t)) (filter (\<lambda>t. category t = c) xs)) =
      val (cur acc c) +
        sum_list (map (\<lambda>t. val (amount t)) (filter (\<lambda>t. category t = c) (x # xs)))"
      using v b by (cases "c = ?k") (simp_all add: curs val_def)
    ultimately show ?thesis by simp
  next
    case False
    with c have ck: "c = ?k" by simp
    from False have empty: "filter (\<lambda>t. category t = c) xs = []"
      by (simp add: list_ex_iff filter_empty_conv)
    from False have "map_of (foldl tally acc' xs) c = map_of acc' c"
      by (rule tally_absent)
    also have "\<dots> = Some (Number (Num (v + b)))"
      unfolding step by (simp add: map_of_own_set ck)
    finally show ?thesis
      using v b empty ck by (simp add: val_def)
  qed
  have total: "value_sum (foldl tally acc' xs) =
      value_sum acc + sum_list (map (\<lambda>t. val (amount t)) (x # xs))"
    using ih sum b by (simp add: val_def)
  from ih key total show ?case
    unfolding unfold by blast
qed

lemma expenses_in_category:
  "filter (\<lambda>t. category t = c) (filter (\<lambda>t. type t = expense) ts) =
   filter (\<lambda>t. type t = expense \<and> category t = c) ts"
  by (induction ts) simp_all

lemma positive_double_cases:
  "positive_double a \<Longrightarrow> a = Infinity \<or> (\<exists>r. a = Num r \<and> 2 powi (- 1074) \<le> r)"
proof (cases a)
  case (Num r)
  assume "positive_double a"
  with Num have "is_double (Num r)" "0 < r"
    by (simp_all add: positive_double_def js_less_def val_def)
  then have "2 powi (- 1074) \<le> r" by (rule is_double_least)
  with Num show ?thesis by blast
qed (simp_all add: positive_double_def js_less_def val_def)

lemma fadd_positive:
  assumes "n = Infinity \<or> (\<exists>v\<ge>0. n = Num v)" "positive_double a"
  shows "positive_value (Number (fadd n a))"
proof -
  from positive_double_cases [OF assms(2)] show ?thesis
  proof
    assume "a = Infinity"
    with assms(1) show ?thesis
      by (auto simp: fadd_def is_inf_def positive_value_def)
  next
    assume "\<exists>r. a = Num r \<and> 2 powi (- 1074) \<le> r"
    then obtain r where r: "a = Num r" "2 powi (- 1074) \<le> r" by blast
    from assms(1) show ?thesis
    proof
      assume "n = Infinity"
      with r show ?thesis by (simp add: fadd_def is_inf_def positive_value_def)
    next
      assume "\<exists>v\<ge>0. n = Num v"
      then obtain v where v: "n = Num v" "0 \<le> v" by blast
      with r(2) have s: "2 powi (- 1074) \<le> v + r" by linarith
      moreover have "0 < (2::real) powi (- 1074)" by simp
      ultimately have pos: "0 < v + r" by linarith
      from v r pos have "fadd n a = round_to False (v + r)"
        by (simp add: fadd_def is_inf_def val_def Let_def)
      with round_to_pos [OF s] show ?thesis
        by (auto simp: positive_value_def)
    qed
  qed
qed

lemma tally_positive:
  assumes "\<forall>v \<in> set (map snd acc). positive_value v"
    and "\<forall>x \<in> set xs. positive_double (amount x)"
  shows "\<forall>v \<in> set (map snd (foldl tally acc xs)). positive_value v"
  using assms
proof (induction xs arbitrary: acc)
  case Nil
  then show ?case by simp
next
  case (Cons x xs)
  let ?k = "category x"
  from Cons.prems(2) have a: "positive_double (amount x)" by simp
  have new: "positive_value (plus_number (or_zero (get_prop acc ?k)) (amount x))"
  proof (cases "get_prop acc ?k")
    case None
    with a show ?thesis
      by (simp add: or_zero_def plus_number_def fadd_positive)
  next
    case (Some w)
    then have "w \<in> set (map snd acc) \<or> w = Str (Inherited ?k)"
      by (cases "map_of acc ?k") (force simp: get_prop_def dest: map_of_SomeD split: if_splits)+
    with Cons.prems(1) have w: "positive_value w"
      by (auto simp: positive_value_def)
    show ?thesis
    proof (cases w)
      case (Number n)
      with w have n: "n = Infinity \<or> (\<exists>v>0. n = Num v)"
        by (cases n) (simp_all add: positive_value_def)
      then have "\<not> falsy n" by (auto simp: falsy_def is_zero_def)
      moreover from n have "n = Infinity \<or> (\<exists>v\<ge>0. n = Num v)" by force
      ultimately show ?thesis
        using Some Number a by (simp add: or_zero_def plus_number_def fadd_positive)
    next
      case (Str s)
      with Some show ?thesis
        by (simp add: or_zero_def plus_number_def positive_value_def)
    qed
  qed
  have "\<forall>v \<in> set (map snd (tally acc x)). positive_value v"
  proof
    fix w assume "w \<in> set (map snd (tally acc x))"
    then have "w = plus_number (or_zero (get_prop acc ?k)) (amount x) \<or> w \<in> set (map snd acc)"
    proof (cases "?k = ''__proto__''")
      case True
      with \<open>w \<in> set (map snd (tally acc x))\<close> show ?thesis by (simp add: set_prop_def)
    next
      case False
      with \<open>w \<in> set (map snd (tally acc x))\<close>
      have "w \<in> set (map snd (own_set acc ?k (plus_number (or_zero (get_prop acc ?k)) (amount x))))"
        by (simp add: set_prop_def)
      then show ?thesis by (rule values_own_set)
    qed
    with Cons.prems(1) new show "positive_value w"
      by auto
  qed
  moreover from Cons.prems(2) have "\<forall>x \<in> set xs. positive_double (amount x)" by simp
  ultimately show ?case using Cons.IH by simp
qed

text \<open>
  Claim C2, as amended. In every snapshot no key of \<open>getExpensesByCategory\<close> occurs twice,
  income transactions never contribute, and a category without expense transactions is
  absent; a category with an expense transaction is a key, unless it is named
  \<open>__proto__\<close>. When no expense category is a property name of \<open>Object.prototype\<close> and
  the additions of both queries are exact (finite operands, no rounding, no overflow),
  every value is a finite number, the value of a category is the sum of its expense
  amounts, and the values add up to \<open>calculateTotalExpenses\<close>. When every expense amount
  is a positive number, no value is a zero.
\<close>

theorem expensesByCategory_totals:
  "distinct (map fst (getExpensesByCategory state)) \<and>
   getExpensesByCategory
     (state\<lparr>transactions := filter (\<lambda>t. type t = expense) (transactions state)\<rparr>) =
     getExpensesByCategory state \<and>
   (\<not> list_ex (\<lambda>t. type t = expense \<and> category t = c) (transactions state) \<longrightarrow>
      map_of (getExpensesByCategory state) c = None) \<and>
   (list_ex (\<lambda>t. type t = expense \<and> category t = c) (transactions state) \<and> c \<noteq> ''__proto__'' \<longrightarrow>
      map_of (getExpensesByCategory state) c \<noteq> None) \<and>
   (list_all (\<lambda>t. type t = expense \<longrightarrow> \<not> inherited (category t)) (transactions state) \<and>
    sums_exactly (Num 0)
      (map amount (filter (\<lambda>t. type t = expense) (transactions state))) \<and>
    list_all (\<lambda>t. type t = expense \<longrightarrow>
        sums_exactly (Num 0)
          (map amount (filter (\<lambda>u. type u = expense \<and> category u = category t)
             (transactions state))))
      (transactions state) \<longrightarrow>
      list_all (\<lambda>kv. finite_value (snd kv)) (getExpensesByCategory state) \<and>
      calculateTotalExpenses state = Num (value_sum (getExpensesByCategory state)) \<and>
      (list_ex (\<lambda>t. type t = expense \<and> category t = c) (transactions state) \<longrightarrow>
         map_of (getExpensesByCategory state) c =
           Some (Number (Num (sum_list (map (\<lambda>t. val (amount t))
             (filter (\<lambda>t. type t = expense \<and> category t = c) (transactions state)))))))) \<and>
   (list_all (\<lambda>t. type t = expense \<longrightarrow> positive_double (amount t)) (transactions state) \<longrightarrow>
      list_all (\<lambda>kv. \<not> zero_value (snd kv)) (getExpensesByCategory state))"
proof -
  let ?expenses = "filter (\<lambda>t. type t = expense) (transactions state)"
  have unfolded: "getExpensesByCategory state = foldl tally [] ?expenses"
    by (simp add: getExpensesByCategory_def)
  have keys: "distinct (map fst (getExpensesByCategory state))"
    by (simp add: unfolded tally_distinct)
  have income: "getExpensesByCategory (state\<lparr>transactions := ?expenses\<rparr>) =
      getExpensesByCategory state"
    by (simp add: getExpensesByCategory_def)
  have ex: "list_ex (\<lambda>t. category t = k) ?expenses =
            list_ex (\<lambda>t. type t = expense \<and> category t = k) (transactions state)" for k
    by (auto simp: list_ex_iff)
  have absent: "map_of (getExpensesByCategory state) c = None"
    if "\<not> list_ex (\<lambda>t. type t = expense \<and> category t = c) (transactions state)"
    using that tally_absent [of c ?expenses "[]"] by (simp add: unfolded ex)
  have present: "map_of (getExpensesByCategory state) c \<noteq> None"
    if "list_ex (\<lambda>t. type t = expense \<and> category t = c) (transactions state)" "c \<noteq> ''__proto__''"
    using that tally_present [of c ?expenses "[]"] by (simp add: unfolded ex)
  have exact: "list_all (\<lambda>kv. finite_value (snd kv)) (getExpensesByCategory state) \<and>
      calculateTotalExpenses state = Num (value_sum (getExpensesByCategory state)) \<and>
      (list_ex (\<lambda>t. type t = expense \<and> category t = c) (transactions state) \<longrightarrow>
         map_of (getExpensesByCategory state) c =
           Some (Number (Num (sum_list (map (\<lambda>t. val (amount t))
             (filter (\<lambda>t. type t = expense \<and> category t = c) (transactions state)))))))"
    if names: "list_all (\<lambda>t. type t = expense \<longrightarrow> \<not> inherited (category t)) (transactions state)"
      and whole: "sums_exactly (Num 0) (map amount ?expenses)"
      and each: "list_all (\<lambda>t. type t = expense \<longrightarrow>
        sums_exactly (Num 0)
          (map amount (filter (\<lambda>u. type u = expense \<and> category u = category t)
             (transactions state))))
      (transactions state)"
  proof -
    have n: "\<forall>x \<in> set ?expenses. \<not> inherited (category x)"
      using names by (auto simp: list_all_iff)
    have e: "sums_exactly (cur [] k) (map amount (filter (\<lambda>t. category t = k) ?expenses))" for k
    proof (cases "list_ex (\<lambda>t. type t = expense \<and> category t = k) (transactions state)")
      case True
      then obtain t where "t \<in> set (transactions state)" "type t = expense" "category t = k"
        by (auto simp: list_ex_iff)
      with each show ?thesis
        by (auto simp: list_all_iff cur_def expenses_in_category)
    next
      case False
      then have "filter (\<lambda>t. type t = expense \<and> category t = k) (transactions state) = []"
        by (auto simp: list_ex_iff filter_empty_conv)
      then show ?thesis by (simp add: expenses_in_category)
    qed
    note all = tally_exact [of "[]" ?expenses, OF _ n e]
    have total: "calculateTotalExpenses state = Num (sum_list (map (\<lambda>t. val (amount t)) ?expenses))"
      using sums_exactly_foldl [OF whole]
      by (simp add: calculateTotalExpenses_def foldl_amounts comp_def)
    from all have fin: "list_all (\<lambda>kv. finite_value (snd kv)) (getExpensesByCategory state)"
      by (simp add: unfolded list_all_iff)
    from all have sum: "value_sum (getExpensesByCategory state) =
        sum_list (map (\<lambda>t. val (amount t)) ?expenses)"
      by (simp add: unfolded value_sum_def)
    from all have key: "map_of (getExpensesByCategory state) c =
           Some (Number (Num (sum_list (map (\<lambda>t. val (amount t))
             (filter (\<lambda>t. type t = expense \<and> category t = c) (transactions state))))))"
      if "list_ex (\<lambda>t. type t = expense \<and> category t = c) (transactions state)"
      using that by (simp add: unfolded ex expenses_in_category cur_def val_def)
    from fin total sum key show ?thesis by simp
  qed
  have nonzero: "list_all (\<lambda>kv. \<not> zero_value (snd kv)) (getExpensesByCategory state)"
    if "list_all (\<lambda>t. type t = expense \<longrightarrow> positive_double (amount t)) (transactions state)"
  proof -
    from that have "\<forall>x \<in> set ?expenses. positive_double (amount x)"
      by (auto simp: list_all_iff)
    then have "\<forall>v \<in> set (map snd (getExpensesByCategory state)). positive_value v"
      unfolding unfolded by (intro tally_positive) simp
    moreover have "\<not> zero_value v" if "positive_value v" for v
      using that
      by (auto simp: positive_value_def zero_value_def is_zero_def split: js_value.splits
          number.splits)
    ultimately show ?thesis
      by (auto simp: list_all_iff)
  qed
  from keys income absent present exact nonzero show ?thesis
    by blast
qed

theorem expensesByCategory_totals_witness:
  "list_all (\<lambda>t. type t = expense \<longrightarrow> \<not> inherited (category t)) (transactions clash) \<and>
   sums_exactly (Num 0) (map amount (filter (\<lambda>t. type t = expense) (transactions clash))) \<and>
   list_all (\<lambda>t. type t = expense \<longrightarrow> positive_double (amount t)) (transactions clash) \<and>
   calculateTotalExpenses clash = Num (value_sum (getExpensesByCategory clash)) \<and>
   map_of (getExpensesByCategory clash) ''Food & Dining'' = Some (Number (Num 1000)) \<and>
   map_of (getExpensesByCategory clash) ''Salary'' = None \<and>
   list_all (\<lambda>kv. \<not> zero_value (snd kv)) (getExpensesByCategory clash)"
proof -
  have ts: "transactions clash = [lunch, salary, lunch\<lparr>description := ''Copy''\<rparr>]"
    by (simp add: clash_def)
  have names: "list_all (\<lambda>t. type t = expense \<longrightarrow> \<not> inherited (category t)) (transactions clash)"
    by (simp add: ts lunch_def salary_def inherited_def Object_prototype_methods_def)
  have adds: "fadd (Num 0) (Num 500) = Num 500" "fadd (Num 500) (Num 500) = Num 1000"
    by (simp_all add: number_eval)
  have whole: "sums_exactly (Num 0)
      (map amount (filter (\<lambda>t. type t = expense) (transactions clash)))"
    by (simp add: ts lunch_def salary_def adds)
  have each: "list_all (\<lambda>t. type t = expense \<longrightarrow>
        sums_exactly (Num 0)
          (map amount (filter (\<lambda>u. type u = expense \<and> category u = category t)
             (transactions clash))))
      (transactions clash)"
    by (simp add: ts lunch_def salary_def adds)
  have "double 500 = Num 500"
    by (simp add: double_def number_eval)
  then have positive: "list_all (\<lambda>t. type t = expense \<longrightarrow> positive_double (amount t))
      (transactions clash)"
    by (simp add: ts lunch_def salary_def positive_double_def is_double_def js_less_def val_def)
  have food: "list_ex (\<lambda>t. type t = expense \<and> category t = ''Food & Dining'') (transactions clash)"
    and pay: "\<not> list_ex (\<lambda>t. type t = expense \<and> category t = ''Salary'') (transactions clash)"
    by (simp_all add: ts lunch_def salary_def)
  have amounts: "sum_list (map (\<lambda>t. val (amount t))
      (filter (\<lambda>t. type t = expense \<and> category t = ''Food & Dining'') (transactions clash))) = 1000"
    by (simp add: ts lunch_def salary_def val_def)
  from names whole each positive food pay
    expensesByCategory_totals [of clash "''Food & Dining''"]
    expensesByCategory_totals [of clash "''Salary''"]
  show ?thesis
    by (simp add: amounts)
qed

text \<open>
  The claim as stated, for every snapshot, fails in three ways. The store accepts an
  expense whose amount is \<open>0\<close>, and its category is then a key with value \<open>0\<close>. With the
  amounts \<open>0.1\<close>, \<open>0.1\<close> and \<open>1.1\<close> in two categories the additions round differently in the
  two queries: the values \<open>1.2000000000000002\<close> and \<open>0.1\<close> do not add up to the total \<open>1.3\<close>,
  neither exactly nor with the addition of the language. And an expense in a category
  named \<open>__proto__\<close> leaves the map empty while the total is \<open>500\<close>.
\<close>

theorem expensesByCategory_zero_value:
  "getExpensesByCategory \<lparr>transactions = [freebie], budgets = [], categories = defaultCategories\<rparr>
     = [(''Other'', Number (Num 0))] \<and>
   getExpensesByCategory coffees =
     [(''Shopping'', Number (Num (1351079888211149 / 2 ^ 50))), (''Other'', Number tenth)] \<and>
   calculateTotalExpenses coffees = Num (5854679515581645 / 2 ^ 52) \<and>
   value_sum (getExpensesByCategory coffees) \<noteq> 5854679515581645 / 2 ^ 52 \<and>
   fadd (Num (1351079888211149 / 2 ^ 50)) tenth \<noteq> Num (5854679515581645 / 2 ^ 52) \<and>
   getExpensesByCategory proto = [] \<and>
   calculateTotalExpenses proto = Num 500"
  by (simp add: getExpensesByCategory_def calculateTotalExpenses_def freebie_def coffees_def
      proto_def tenth_def eleven_tenths_def get_prop_def set_prop_def or_zero_def plus_number_def
      inherited_def Object_prototype_methods_def falsy_def value_sum_def number_eval)

subsection \<open>Budget progress\<close>

lemma plain_nonneg_cases:
  "plain_nonneg x \<longleftrightarrow> x = Infinity \<or> (\<exists>v\<ge>0. x = Num v)"
  by (cases x) (simp_all add: plain_nonneg_def)

lemma plain_nonneg_round: "0 \<le> a \<Longrightarrow> plain_nonneg (round_to False a)"
  using round_to_nonneg [of a] by (auto simp: plain_nonneg_cases)

lemma fadd_plain_nonneg:
  assumes "plain_nonneg x" "nonneg y"
  shows "plain_nonneg (fadd x y)"
proof (cases "is_inf x \<or> is_inf y")
  case True
  with assms show ?thesis
    by (cases x; cases y) (simp_all add: fadd_def is_inf_def plain_nonneg_def nonneg_def)
next
  case False
  with assms have fin: "x \<noteq> NaN" "y \<noteq> NaN" "\<not> is_inf x" "\<not> is_inf y"
    and vx: "0 \<le> val x" and vy: "0 \<le> val y" and nx: "\<not> negative x"
    by (cases x; cases y; simp add: is_inf_def plain_nonneg_def nonneg_def val_def negative_def)+
  show ?thesis
  proof (cases "val x + val y = 0")
    case True
    with fin nx show ?thesis
      by (simp add: fadd_def signed_zero_def plain_nonneg_def)
  next
    case False
    with vx vy have "0 < val x + val y" by linarith
    with fin False show ?thesis
      by (simp add: fadd_def Let_def plain_nonneg_round)
  qed
qed

lemma spent_plain_nonneg:
  "plain_nonneg acc \<Longrightarrow> list_all (\<lambda>t. nonneg (amount t)) ts \<Longrightarrow>
   plain_nonneg (foldl (\<lambda>sum t. fadd sum (amount t)) acc ts)"
  by (induction ts arbitrary: acc) (simp_all add: fadd_plain_nonneg)

lemma fdiv_plain_nonneg:
  assumes "plain_nonneg x" "0 < l"
  shows "plain_nonneg (fdiv x (Num l))"
proof (cases x)
  case (Num v)
  with assms have v: "0 \<le> v" by (simp add: plain_nonneg_def)
  with assms(2) have "plain_nonneg (round_to False (v / l))"
    by (intro plain_nonneg_round) simp
  moreover from Num v assms(2) have "fdiv x (Num l) = round_to False (v / l)"
    by (simp add: fdiv_def is_inf_def is_zero_def negative_def val_def)
  ultimately show ?thesis by simp
qed (use assms in \<open>simp_all add: plain_nonneg_def fdiv_def is_inf_def is_zero_def negative_def
      signed_inf_def\<close>)

lemma fmul_plain_nonneg:
  assumes "plain_nonneg x"
  shows "plain_nonneg (fmul x (Num 100))"
proof (cases x)
  case (Num v)
  with assms have v: "0 \<le> v" by (simp add: plain_nonneg_def)
  then have "plain_nonneg (round_to False (v * 100))"
    by (intro plain_nonneg_round) simp
  moreover from Num v have "fmul x (Num 100) = round_to False (v * 100)"
    by (simp add: fmul_def is_inf_def is_zero_def negative_def val_def)
  ultimately show ?thesis by simp
qed (use assms in \<open>simp_all add: plain_nonneg_def fmul_def is_inf_def is_zero_def negative_def
      signed_inf_def\<close>)

lemma Math_min_Num: "Math_min (Num p) (Num 100) = Num (min 100 p)"
  by (auto simp: Math_min_def js_less_def val_def min_def)

lemma Math_min_range:
  assumes "plain_nonneg x"
  shows "\<exists>v. Math_min x (Num 100) = Num v \<and> 0 \<le> v \<and> v \<le> 100"
  using assms by (cases x) (auto simp: plain_nonneg_def Math_min_def js_less_def val_def)

lemma Math_min_upper: "\<not> js_less (Num 100) (Math_min x (Num 100))"
  by (cases x) (auto simp: Math_min_def js_less_def val_def)

lemma find_spent_update:
  "find (\<lambda>b. Budget.category b = c) (map (\<lambda>b. b\<lparr>spent := f b\<rparr>) bs) =
   map_option (\<lambda>b. b\<lparr>spent := f b\<rparr>) (find (\<lambda>b. Budget.category b = c) bs)"
  by (induction bs) simp_all

text \<open>
  Claim C1, as amended. \<open>getBudgetProgress\<close> is \<open>0\<close> when no budget has the category.
  Otherwise it is \<open>Math.min((spent / limit) * 100, 100)\<close> for the first budget of that
  category, evaluated in this order in the arithmetic of the language, where \<open>spent\<close> is
  the left-to-right sum of the amounts of the expense transactions of the category in the
  current list; this is \<open>min(100, 100 \<times> spent / limit)\<close> whenever the sum is finite and the
  division and the multiplication are exact. The stored \<open>spent\<close> fields of the budgets
  have no influence. The result is never greater than \<open>100\<close>. It lies in \<open>[0, 100]\<close> when
  the limit is positive and finite and no expense amount of the category is negative or
  \<open>NaN\<close>.
\<close>

theorem budgetProgress_value_and_bounds:
  "(\<not> list_ex (\<lambda>b. Budget.category b = c) (budgets state) \<longrightarrow>
      getBudgetProgress state c = Num 0) \<and>
   (find (\<lambda>b. Budget.category b = c) (budgets state) = Some budget \<longrightarrow>
      getBudgetProgress state c =
        Math_min (fmul (fdiv
            (foldl (\<lambda>sum t. fadd sum (amount t)) (Num 0)
               (filter (\<lambda>t. type t = expense \<and> category t = c) (transactions state)))
            (limit budget)) (Num 100)) (Num 100)) \<and>
   (find (\<lambda>b. Budget.category b = c) (budgets state) = Some budget \<and>
    foldl (\<lambda>sum t. fadd sum (amount t)) (Num 0)
      (filter (\<lambda>t. type t = expense \<and> category t = c) (transactions state)) = Num s \<and>
    limit budget = Num l \<and> l \<noteq> 0 \<and>
    fdiv (Num s) (Num l) = Num (s / l) \<and> fmul (Num (s / l)) (Num 100) = Num (s / l * 100) \<longrightarrow>
      getBudgetProgress state c = Num (min 100 (100 * s / l))) \<and>
   getBudgetProgress (state\<lparr>budgets := map (\<lambda>b. b\<lparr>spent := f b\<rparr>) (budgets state)\<rparr>) c =
     getBudgetProgress state c \<and>
   \<not> js_less (Num 100) (getBudgetProgress state c) \<and>
   (find (\<lambda>b. Budget.category b = c) (budgets state) = Some budget \<and>
    limit budget = Num l \<and> 0 < l \<and>
    list_all (\<lambda>t. type t = expense \<and> category t = c \<longrightarrow> nonneg (amount t)) (transactions state) \<longrightarrow>
      (\<exists>x. getBudgetProgress state c = Num x \<and> 0 \<le> x \<and> x \<le> 100))"
proof -
  let ?spent = "foldl (\<lambda>sum t. fadd sum (amount t)) (Num 0)
      (filter (\<lambda>t. type t = expense \<and> category t = c) (transactions state))"
  have none: "getBudgetProgress state c = Num 0"
    if "\<not> list_ex (\<lambda>b. Budget.category b = c) (budgets state)"
  proof -
    from that have "find (\<lambda>b. Budget.category b = c) (budgets state) = None"
      by (simp add: find_None_iff list_ex_iff)
    then show ?thesis by (simp add: getBudgetProgress_def)
  qed
  have found: "getBudgetProgress state c =
      Math_min (fmul (fdiv ?spent (limit b)) (Num 100)) (Num 100)"
    if "find (\<lambda>b. Budget.category b = c) (budgets state) = Some b" for b
    using that by (simp add: getBudgetProgress_def)
  have exact: "getBudgetProgress state c = Num (min 100 (100 * s / l))"
    if "find (\<lambda>b. Budget.category b = c) (budgets state) = Some budget" "?spent = Num s"
      "limit budget = Num l" "fdiv (Num s) (Num l) = Num (s / l)"
      "fmul (Num (s / l)) (Num 100) = Num (s / l * 100)"
  proof -
    have "s / l * 100 = 100 * s / l" by simp
    with that show ?thesis
      by (simp add: found Math_min_Num del: times_divide_eq_left)
  qed
  have fresh: "getBudgetProgress (state\<lparr>budgets := map (\<lambda>b. b\<lparr>spent := f b\<rparr>) (budgets state)\<rparr>) c =
     getBudgetProgress state c"
    by (cases "find (\<lambda>b. Budget.category b = c) (budgets state)")
      (simp_all add: getBudgetProgress_def find_spent_update)
  have upper: "\<not> js_less (Num 100) (getBudgetProgress state c)"
  proof (cases "find (\<lambda>b. Budget.category b = c) (budgets state)")
    case None
    then show ?thesis by (simp add: getBudgetProgress_def js_less_def val_def)
  next
    case (Some b)
    show ?thesis
      unfolding found [OF Some] by (rule Math_min_upper)
  qed
  have range: "\<exists>x. getBudgetProgress state c = Num x \<and> 0 \<le> x \<and> x \<le> 100"
    if b: "find (\<lambda>b. Budget.category b = c) (budgets state) = Some budget"
      and l: "limit budget = Num l" "0 < l"
      and amounts: "list_all (\<lambda>t. type t = expense \<and> category t = c \<longrightarrow> nonneg (amount t))
             (transactions state)"
  proof -
    from amounts have "list_all (\<lambda>t. nonneg (amount t))
        (filter (\<lambda>t. type t = expense \<and> category t = c) (transactions state))"
      by (auto simp: list_all_iff)
    then have "plain_nonneg ?spent"
      by (intro spent_plain_nonneg) (simp_all add: plain_nonneg_def)
    then have "plain_nonneg (fmul (fdiv ?spent (Num l)) (Num 100))"
      using l(2) by (intro fmul_plain_nonneg fdiv_plain_nonneg)
    then show ?thesis
      unfolding found [OF b] l(1) by (rule Math_min_range)
  qed
  from none found [of budget] exact fresh upper range show ?thesis
    by blast
qed

lemma add_0_500: "fadd (Num 0) (Num 500) = Num 500"
  by (simp add: number_eval)
lemma add_500_600: "fadd (Num 500) (Num 600) = Num 1100"
  by (simp add: number_eval)
lemma div_500_1000: "fdiv (Num 500) (Num 1000) = Num (500 / 1000)"
  by (simp add: number_eval)
lemma mul_half_100: "fmul (Num (500 / 1000)) (Num 100) = Num (500 / 1000 * 100)"
  by (simp add: number_eval)
lemma div_1100_1000: "fdiv (Num 1100) (Num 1000) = Num (2476979795053773 / 2251799813685248)"
  by (simp add: number_eval)
lemma mul_11_tenths_100: "fmul (Num (2476979795053773 / 2251799813685248)) (Num 100) = Num (7740561859543041 / 70368744177664)"
  by (simp add: number_eval)

theorem budgetProgress_value_and_bounds_witness:
  "find (\<lambda>b. Budget.category b = ''Food & Dining'') (budgets halfway) = Some food1000 \<and>
   limit food1000 = Num 1000 \<and>
   fdiv (Num 500) (Num 1000) = Num (500 / 1000) \<and>
   fmul (Num (500 / 1000)) (Num 100) = Num (500 / 1000 * 100) \<and>
   list_all (\<lambda>t. type t = expense \<and> category t = ''Food & Dining'' \<longrightarrow> nonneg (amount t))
     (transactions dining) \<and>
   getBudgetProgress halfway ''Food & Dining'' = Num 50 \<and>
   getBudgetProgress dining ''Food & Dining'' = Num 100 \<and>
   \<not> list_ex (\<lambda>b. Budget.category b = ''Salary'') (budgets dining) \<and>
   getBudgetProgress dining ''Salary'' = Num 0"
proof -
  have b: "find (\<lambda>b. Budget.category b = ''Food & Dining'') (budgets halfway) = Some food1000"
    "find (\<lambda>b. Budget.category b = ''Food & Dining'') (budgets dining) = Some food1000"
    by (simp_all add: halfway_def dining_def fuel200_def food1000_def)
  have l: "limit food1000 = Num 1000" "(0::real) < 1000" "(1000::real) \<noteq> 0"
    by (simp_all add: food1000_def)
  have s: "foldl (\<lambda>sum t. fadd sum (amount t)) (Num 0)
      (filter (\<lambda>t. type t = expense \<and> category t = ''Food & Dining'') (transactions halfway))
      = Num 500"
    by (simp add: halfway_def lunch_def salary_def add_0_500)
  have s2: "foldl (\<lambda>sum t. fadd sum (amount t)) (Num 0)
      (filter (\<lambda>t. type t = expense \<and> category t = ''Food & Dining'') (transactions dining))
      = Num 1100"
    by (simp add: dining_def lunch_def salary_def dinner_def add_0_500 add_500_600)
  have a: "list_all (\<lambda>t. type t = expense \<and> category t = ''Food & Dining'' \<longrightarrow> nonneg (amount t))
     (transactions dining)"
    by (simp add: dining_def lunch_def salary_def dinner_def nonneg_def)
  have n: "\<not> list_ex (\<lambda>b. Budget.category b = ''Salary'') (budgets dining)"
    by (simp add: dining_def fuel200_def food1000_def)
  have clamp: "Math_min (Num (7740561859543041 / 70368744177664)) (Num 100) = Num 100"
    by (simp add: Math_min_def js_less_def val_def)
  note exact = budgetProgress_value_and_bounds
    [of "''Food & Dining''" halfway food1000 500 1000, THEN conjunct2, THEN conjunct2,
      THEN conjunct1]
  with b(1) s l div_500_1000 mul_half_100 have p50: "getBudgetProgress halfway ''Food & Dining'' = Num 50"
    by simp
  note formula = budgetProgress_value_and_bounds
    [of "''Food & Dining''" dining food1000, THEN conjunct2, THEN conjunct1]
  with b(2) have "getBudgetProgress dining ''Food & Dining'' =
      Math_min (fmul (fdiv (Num 1100) (Num 1000)) (Num 100)) (Num 100)"
    by (simp only: s2 l(1))
  then have p100: "getBudgetProgress dining ''Food & Dining'' = Num 100"
    by (simp only: div_1100_1000 mul_11_tenths_100 clamp)
  note absent = budgetProgress_value_and_bounds [of "''Salary''" dining, THEN conjunct1]
  with n have p0: "getBudgetProgress dining ''Salary'' = Num 0"
    by simp
  from b(1) l(1) div_500_1000 mul_half_100 a p50 p100 n p0 show ?thesis
    by simp
qed

text \<open>
  The claim as stated, for every amount configuration, fails: \<open>Math.min\<close> bounds the result
  from above only, and the arithmetic rounds. An expense with a negative amount gives a
  negative progress, a limit of \<open>0\<close> with nothing spent gives \<open>NaN\<close>, and an expense of \<open>7\<close>
  against a limit of \<open>1000\<close> gives \<open>0.7000000000000001\<close>, not \<open>100 \<times> 7 / 1000\<close>.
\<close>

theorem budgetProgress_outside_range:
  "getBudgetProgress \<lparr>transactions = [refund], budgets = [food1000],
      categories = defaultCategories\<rparr> ''Food & Dining'' = Num (- 5) \<and>
   getBudgetProgress \<lparr>transactions = [], budgets = [food0],
      categories = defaultCategories\<rparr> ''Food & Dining'' = NaN \<and>
   getBudgetProgress \<lparr>transactions = [snack], budgets = [food1000],
      categories = defaultCategories\<rparr> ''Food & Dining'' = Num (6305039478318695 / 2 ^ 53) \<and>
   (6305039478318695 / 2 ^ 53 :: real) \<noteq> min 100 (100 * 7 / 1000)"
  by (simp add: getBudgetProgress_def refund_def food1000_def food0_def snack_def number_eval)

subsection \<open>Transaction identifiers\<close>

lemma digit_value_digit: "d < 10 \<Longrightarrow> digit_value (digit d) = d"
proof -
  assume "d < 10"
  then have "d \<in> {0, 1, 2, 3, 4, 5, 6, 7, 8, 9}"
    by auto
  then show ?thesis
    by (auto simp: digit_def digit_value_def)
qed

lemma fromDigits_snoc: "fromDigits (ds @ [c]) = 10 * fromDigits ds + digit_value c"
  by (simp add: fromDigits_def)

lemma fromDigits_toString: "fromDigits (toString n) = n"
proof (induction n rule: toString.induct)
  case (1 n)
  show ?case
  proof (cases "n < 10")
    case True
    then show ?thesis
      by (simp add: toString.simps [of n] fromDigits_def digit_value_digit)
  next
    case False
    with 1 have "fromDigits (toString (n div 10)) = n div 10"
      by simp
    with False show ?thesis
      by (simp add: toString.simps [of n] fromDigits_snoc digit_value_digit)
  qed
qed

lemma toString_inject: "toString m = toString n \<longleftrightarrow> m = n"
  by (metis fromDigits_toString)

lemma update_keeps_ids:
  "map Transaction.id (map (\<lambda>t. if Transaction.id t = Transaction.id p then p else t) ts) =
   map Transaction.id ts"
  by (induction ts) simp_all

lemma delete_ids:
  "map Transaction.id (filter (\<lambda>t. Transaction.id t \<noteq> i) ts) =
   filter (\<lambda>j. j \<noteq> i) (map Transaction.id ts)"
  by (induction ts) simp_all

lemma perform_ids:
  "map Transaction.id (transactions (perform s c)) =
     (case c of
        AddTransaction now transaction \<Rightarrow> map Transaction.id (transactions s) @ [toString now]
      | DeleteTransaction i \<Rightarrow> filter (\<lambda>j. j \<noteq> i) (map Transaction.id (transactions s))
      | _ \<Rightarrow> map Transaction.id (transactions s))"
  by (cases c)
    (simp_all add: addTransaction_def updateTransaction_def deleteTransaction_def setBudget_def
      addCategory_def update_keeps_ids delete_ids)

lemma perform_ids_subset:
  "set (map Transaction.id (transactions (perform s c))) \<subseteq>
     set (map Transaction.id (transactions s)) \<union> toString ` set (reading c)"
  unfolding perform_ids by (cases c) auto

lemma perform_distinct:
  assumes "distinct (map Transaction.id (transactions s))"
    and "\<forall>n \<in> set (reading c). toString n \<notin> set (map Transaction.id (transactions s))"
  shows "distinct (map Transaction.id (transactions (perform s c)))"
  using assms unfolding perform_ids by (cases c) auto

lemma run_distinct:
  assumes "distinct (map Transaction.id (transactions s))"
    and "distinct (transaction_clocks calls)"
    and "\<forall>n \<in> set (transaction_clocks calls). toString n \<notin> set (map Transaction.id (transactions s))"
  shows "distinct (map Transaction.id (transactions (run s calls)))"
  using assms
proof (induction calls arbitrary: s)
  case Nil
  then show ?case by (simp add: run_def)
next
  case (Cons c calls)
  have step: "distinct (map Transaction.id (transactions (perform s c)))"
    using Cons.prems by (intro perform_distinct) (auto simp: transaction_clocks_def)
  have rest: "distinct (transaction_clocks calls)"
    using Cons.prems(2) by (simp add: transaction_clocks_def)
  have fresh: "\<forall>n \<in> set (transaction_clocks calls).
      toString n \<notin> set (map Transaction.id (transactions (perform s c)))"
  proof
    fix n assume n: "n \<in> set (transaction_clocks calls)"
    with Cons.prems(3) have "toString n \<notin> set (map Transaction.id (transactions s))"
      by (simp add: transaction_clocks_def)
    moreover from n Cons.prems(2) have "n \<notin> set (reading c)"
      by (auto simp: transaction_clocks_def)
    then have "toString n \<notin> toString ` set (reading c)"
      by (auto simp: toString_inject)
    ultimately show "toString n \<notin> set (map Transaction.id (transactions (perform s c)))"
      using perform_ids_subset [of s c] by blast
  qed
  from Cons.IH [OF step rest fresh] show ?case
    by (simp add: run_def)
qed

text \<open>
  Claim C7, as amended. Starting from the initial snapshot, after any sequence of calls in
  which no two \<open>addTransaction\<close> calls read the same value of the clock, no two
  transactions of the list share an identifier.
\<close>

theorem ids_unique_for_distinct_clocks:
  "distinct (transaction_clocks calls) \<Longrightarrow>
   distinct (map Transaction.id (transactions (run initialState calls)))"
  by (rule run_distinct) (simp_all add: initialState_def)

theorem ids_unique_for_distinct_clocks_witness:
  "distinct (transaction_clocks session) \<and>
   distinct (map Transaction.id (transactions (run initialState session))) \<and>
   length (transactions (run initialState session)) = 2"
proof -
  have clocks: "distinct (transaction_clocks session)"
    by (simp add: session_def transaction_clocks_def)
  have "map Transaction.id (transactions (run initialState session)) = [''1704880000001'', ''1704880000002'']"
    by (simp add: session_def run_def initialState_def addTransaction_def updateTransaction_def
        deleteTransaction_def rerun_def toString.simps digit_def)
  then have "length (transactions (run initialState session)) = 2"
    by (metis length_map length_Cons list.size(3) numeral_2_eq_2)
  with clocks ids_unique_for_distinct_clocks [OF clocks] show ?thesis
    by simp
qed

text \<open>
  The claim as stated, for any sequence, fails: the identifier is the clock reading, so
  two \<open>addTransaction\<close> calls within the same millisecond produce the same identifier.
\<close>

theorem same_clock_same_id:
  "\<not> distinct (map Transaction.id (transactions (run initialState double_click))) \<and>
   map Transaction.id (transactions (run initialState double_click)) =
     [''1704880000000'', ''1704880000000'']"
  by (simp add: double_click_def run_def initialState_def addTransaction_def toString.simps
      digit_def)

subsection \<open>Loading at startup\<close>

text \<open>
  Claim C8, as amended. With nothing stored, or with the empty string stored, the state
  stays the seed snapshot and nothing is logged. When the stored text is not empty and is
  not valid JSON, the failure of \<open>JSON.parse\<close> is caught: the state stays the seed snapshot
  (no transactions, no budgets, the nine seed categories) and a diagnostic is logged. When
  the stored text parses to a value with the shape of a snapshot, that snapshot replaces
  the seed as a whole, categories included.
\<close>

theorem load_falls_back_or_replaces:
  "(state_after_load JSON_parse None = Snapshot initialState \<and>
    \<not> logged (load_effect JSON_parse None)) \<and>
   (state_after_load JSON_parse (Some []) = Snapshot initialState \<and>
    \<not> logged (load_effect JSON_parse (Some []))) \<and>
   (text \<noteq> [] \<and> JSON_parse text = SyntaxError \<longrightarrow>
      state_after_load JSON_parse (Some text) = Snapshot initialState \<and>
      logged (load_effect JSON_parse (Some text)) \<and>
      transactions initialState = [] \<and> budgets initialState = [] \<and>
      length (categories initialState) = 9) \<and>
   (text \<noteq> [] \<and> JSON_parse text = Parsed parsedData \<and>
    as_BudgetState parsedData = Some prior \<longrightarrow>
      state_after_load JSON_parse (Some text) = Snapshot prior \<and>
      \<not> logged (load_effect JSON_parse (Some text)))"
  by (simp add: state_after_load_def load_effect_def initialState_def defaultCategories_def)

theorem load_falls_back_or_replaces_witness:
  \<open>state_after_load JSON_parse_sample (Some ''{"transactions":[]'') = Snapshot initialState \<and>
   logged (load_effect JSON_parse_sample (Some ''{"transactions":[]'')) \<and>
   pets_text \<noteq> [] \<and>
   JSON_parse_sample pets_text = Parsed pets_json \<and>
   as_BudgetState pets_json = Some pets \<and>
   state_after_load JSON_parse_sample (Some pets_text) = Snapshot pets \<and>
   length (categories pets) = 1\<close>
proof -
  have broken: \<open>''{"transactions":[]'' \<noteq> [] \<and> JSON_parse_sample ''{"transactions":[]'' = SyntaxError\<close>
    by (simp add: JSON_parse_sample_def pets_text_def)
  have whole: "pets_text \<noteq> [] \<and> JSON_parse_sample pets_text = Parsed pets_json"
    by (simp add: JSON_parse_sample_def pets_text_def)
  have shape: "as_BudgetState pets_json = Some pets"
    by (simp add: as_BudgetState_def pets_json_def pets_def array_field_def field_def as_list_def
        as_Transaction_def as_Budget_def as_Category_def string_field_def number_field_def
        as_TransactionType_def)
  from broken whole shape
    load_falls_back_or_replaces [of JSON_parse_sample \<open>''{"transactions":[]''\<close>]
    load_falls_back_or_replaces [of JSON_parse_sample pets_text pets_json pets]
  show ?thesis
    by (simp add: pets_def)
qed

text \<open>
  The claim as stated, for every stored value that cannot be used as a snapshot, fails:
  only a failure of \<open>JSON.parse\<close> is caught. The text \<open>{}\<close> parses, so the parsed value
  becomes the state although it has none of the three lists, and nothing is logged.
\<close>

theorem load_accepts_any_json:
  "state_after_load JSON_parse_sample (Some ''{}'') = Illshaped (JObject []) \<and>
   as_BudgetState (JObject []) = None \<and>
   \<not> logged (load_effect JSON_parse_sample (Some ''{}''))"
  by (simp add: state_after_load_def load_effect_def JSON_parse_sample_def as_BudgetState_def
      array_field_def field_def)

end
